theory Spec2Isabelle
  imports Main "HOL-Library.AList" "HOL-Library.Char_ord" "HOL-Library.List_Lexorder"
begin

section \<open>Python values and exceptions\<close>

text \<open>
  The exception classes that the modelled functions of \<^verbatim>\<open>ddb_model/base.py\<close> can raise.
  \<open>LibraryError\<close> stands for whatever \<^verbatim>\<open>base64\<close>, \<^verbatim>\<open>zlib\<close> or \<^verbatim>\<open>pickle\<close> raise on input
  they reject, and \<open>StoreError\<close> for an exception of the store callable.
\<close>

datatype error =
    KeyError
  | IndexError
  | AttributeError
  | AssertionError
  | ZeroDivisionError
  | BrokenBarrierError
  | LibraryError string
  | StoreError string

text \<open>
  Attribute values are scalars: \<^verbatim>\<open>None\<close>, booleans, integers and strings. A dictionary with
  string keys whose content is compared with \<^verbatim>\<open>==\<close> is a map; a dictionary whose insertion
  order is observable (it is iterated) is an association list updated with \<open>AList.update\<close>,
  which overwrites in place or appends, as Python's \<^verbatim>\<open>d[k] = v\<close> does.
\<close>

datatype pyval = VNone | VBool bool | VInt int | VStr string

type_synonym entity = "string \<rightharpoonup> pyval"

type_synonym cursor = "(string \<times> pyval) list"

fun str_nat :: "nat \<Rightarrow> string" where
  "str_nat n =
     (if n < 10 then [''0123456789'' ! n]
      else str_nat (n div 10) @ [''0123456789'' ! (n mod 10)])"

declare str_nat.simps [simp del]

definition str_int :: "int \<Rightarrow> string" where
  "str_int i = (if i < 0 then CHR ''-'' # str_nat (nat (- i)) else str_nat (nat i))"

fun py_str :: "pyval \<Rightarrow> string" where
  "py_str VNone = ''None''"
| "py_str (VBool b) = (if b then ''True'' else ''False'')"
| "py_str (VInt i) = str_int i"
| "py_str (VStr s) = s"

section \<open>Objects on the heap\<close>

text \<open>
  Entities are mutable dictionaries: \<^verbatim>\<open>enriched_entity[index_key] = value\<close> and
  \<^verbatim>\<open>svelte_entity.pop(index_key, None)\<close> write into an object. The store maps an address to
  the dictionary it holds; \<open>next_free\<close> is the first address never handed out.
  \<^verbatim>\<open>copy.deepcopy\<close> allocates a new object with the same content.
\<close>

record heap =
  cells :: "nat \<Rightarrow> entity"
  next_free :: nat

definition deepcopy :: "heap \<Rightarrow> nat \<Rightarrow> nat \<times> heap" where
  "deepcopy h a =
     (next_free h,
      h\<lparr>cells := (cells h)(next_free h := cells h a), next_free := Suc (next_free h)\<rparr>)"

definition setitem :: "heap \<Rightarrow> nat \<Rightarrow> string \<Rightarrow> pyval \<Rightarrow> heap" where
  "setitem h a k v = h\<lparr>cells := (cells h)(a := (cells h a)(k \<mapsto> v))\<rparr>"

definition pop_key :: "heap \<Rightarrow> nat \<Rightarrow> string \<Rightarrow> heap" where
  "pop_key h a k = h\<lparr>cells := (cells h)(a := (cells h a)(k := None))\<rparr>"

section \<open>Index-key templates\<close>

text \<open>
  A format template is kept parsed: literal text and replacement fields \<^verbatim>\<open>{name}\<close> that
  name a root-level attribute (the docstring of \<^verbatim>\<open>_format_template\<close>: no nested or dotted
  expressions). \<^verbatim>\<open>template.format(**data)\<close> raises \<^verbatim>\<open>KeyError\<close> at a field that \<open>data\<close>
  lacks and otherwise concatenates the literals and \<^verbatim>\<open>str\<close> of the values.
\<close>

datatype segment = Lit string | Field string

fun str_format :: "segment list \<Rightarrow> entity \<Rightarrow> error + string" where
  "str_format [] data = Inr []"
| "str_format (Lit s # segs) data =
     (case str_format segs data of Inl e \<Rightarrow> Inl e | Inr r \<Rightarrow> Inr (s @ r))"
| "str_format (Field k # segs) data =
     (case data k of
        None \<Rightarrow> Inl KeyError
      | Some v \<Rightarrow> (case str_format segs data of Inl e \<Rightarrow> Inl e | Inr r \<Rightarrow> Inr (py_str v @ r)))"

text \<open>The result of evaluating a template: a value, or an instance of \<^verbatim>\<open>EmptyValue\<close>.\<close>

datatype tvalue = EmptyValue | Value pyval

text \<open>
  \<^verbatim>\<open>_format_template\<close>: \<^verbatim>\<open>template.format(**data) or EmptyValue()\<close>, with \<^verbatim>\<open>KeyError\<close>
  turned into \<^verbatim>\<open>EmptyValue()\<close>; any other exception propagates.
\<close>

definition format_template :: "segment list \<Rightarrow> entity \<Rightarrow> error + tvalue" where
  "format_template template data =
     (case str_format template data of
        Inr s \<Rightarrow> Inr (if s = [] then EmptyValue else Value (VStr s))
      | Inl KeyError \<Rightarrow> Inr EmptyValue
      | Inl e \<Rightarrow> Inl e)"

text \<open>
  The random generator is the stream of its future raw draws. \<^verbatim>\<open>random.choice(seq)\<close>
  raises \<^verbatim>\<open>IndexError\<close> on an empty sequence and otherwise returns the element at an index
  below \<^verbatim>\<open>len(seq)\<close>, consuming one draw.
\<close>

type_synonym rng = "nat \<Rightarrow> nat"

definition random_choice :: "rng \<Rightarrow> 'a list \<Rightarrow> error + ('a \<times> rng)" where
  "random_choice g xs =
     (if xs = [] then Inl IndexError
      else Inr (xs ! (g 0 mod length xs), (\<lambda>n. g (Suc n))))"

text \<open>\<^verbatim>\<open>ShardIdTemplate.random_shard_id\<close>: \<^verbatim>\<open>str(random.choice(self._shard_range))\<close>.\<close>

definition random_shard_id :: "int list \<Rightarrow> rng \<Rightarrow> error + (string \<times> rng)" where
  "random_shard_id shard_range g =
     (case random_choice g shard_range of
        Inl e \<Rightarrow> Inl e
      | Inr (i, g') \<Rightarrow> Inr (str_int i, g'))"

text \<open>
  The values of \<^verbatim>\<open>index_keys_map\<close>, in the order \<^verbatim>\<open>_value_from_template\<close> tests them: a
  \<^verbatim>\<open>ShardIdTemplate\<close> over a range, a format string, a callable (a function of the entity
  that returns or raises), anything else.
\<close>

datatype template =
    ShardIdTemplate "int list"
  | StrTemplate "segment list"
  | CallableTemplate "entity \<Rightarrow> error + tvalue"
  | OtherTemplate

text \<open>
  \<^verbatim>\<open>_value_from_template\<close>. In \<^verbatim>\<open>entity.get(index_key, template.random_shard_id())\<close> the
  default is evaluated before \<^verbatim>\<open>get\<close> is called, so the draw happens (and can raise)
  whether or not the key is present.
\<close>

fun value_from_template :: "string \<Rightarrow> template \<Rightarrow> entity \<Rightarrow> rng \<Rightarrow> error + (tvalue \<times> rng)" where
  "value_from_template index_key (ShardIdTemplate shard_range) entity g =
     (case random_shard_id shard_range g of
        Inl e \<Rightarrow> Inl e
      | Inr (drawn, g') \<Rightarrow>
          Inr (Value (case entity index_key of Some v \<Rightarrow> v | None \<Rightarrow> VStr drawn), g'))"
| "value_from_template index_key (StrTemplate t) entity g =
     (case format_template t entity of Inl e \<Rightarrow> Inl e | Inr v \<Rightarrow> Inr (v, g))"
| "value_from_template index_key (CallableTemplate f) entity g =
     (case f entity of Inl e \<Rightarrow> Inr (EmptyValue, g) | Inr v \<Rightarrow> Inr (v, g))"
| "value_from_template index_key OtherTemplate entity g = Inr (Value VNone, g)"

section \<open>IndexMapping\<close>

text \<open>
  \<^verbatim>\<open>index_keys_map\<close> is a dictionary iterated in insertion order: an association list whose
  keys are distinct. The loop of \<^verbatim>\<open>enrich_entity_with_index_keys\<close> evaluates each template
  against the copy as enriched so far and assigns the value unless it is an \<^verbatim>\<open>EmptyValue\<close>.
\<close>

type_synonym index_keys_map = "(string \<times> template) list"

fun enrich_loop :: "index_keys_map \<Rightarrow> nat \<Rightarrow> heap \<Rightarrow> rng \<Rightarrow> error + (heap \<times> rng)" where
  "enrich_loop [] a h g = Inr (h, g)"
| "enrich_loop ((index_key, template) # rest) a h g =
     (case value_from_template index_key template (cells h a) g of
        Inl e \<Rightarrow> Inl e
      | Inr (EmptyValue, g') \<Rightarrow> enrich_loop rest a h g'
      | Inr (Value v, g') \<Rightarrow> enrich_loop rest a (setitem h a index_key v) g')"

definition enrich_entity_with_index_keys ::
  "index_keys_map \<Rightarrow> heap \<Rightarrow> nat \<Rightarrow> rng \<Rightarrow> error + (nat \<times> heap \<times> rng)" where
  "enrich_entity_with_index_keys ikm h entity g =
     (case deepcopy h entity of
        (enriched_entity, h1) \<Rightarrow>
          (case enrich_loop ikm enriched_entity h1 g of
             Inl e \<Rightarrow> Inl e
           | Inr (h2, g') \<Rightarrow> Inr (enriched_entity, h2, g')))"

fun drop_loop :: "string list \<Rightarrow> nat \<Rightarrow> heap \<Rightarrow> heap" where
  "drop_loop [] a h = h"
| "drop_loop (index_key # rest) a h = drop_loop rest a (pop_key h a index_key)"

definition drop_index_keys_from_entity :: "index_keys_map \<Rightarrow> heap \<Rightarrow> nat \<Rightarrow> nat \<times> heap" where
  "drop_index_keys_from_entity ikm h entity =
     (case deepcopy h entity of
        (svelte_entity, h1) \<Rightarrow> (svelte_entity, drop_loop (map fst ikm) svelte_entity h1))"

fun drop_index_keys_from_entities :: "index_keys_map \<Rightarrow> heap \<Rightarrow> nat list \<Rightarrow> nat list \<times> heap" where
  "drop_index_keys_from_entities ikm h [] = ([], h)"
| "drop_index_keys_from_entities ikm h (entity # entities) =
     (case drop_index_keys_from_entity ikm h entity of
        (svelte, h1) \<Rightarrow>
          (case drop_index_keys_from_entities ikm h1 entities of
             (sveltes, h2) \<Rightarrow> (svelte # sveltes, h2)))"

text \<open>
  A caller that enriches again what an earlier call returned, \<open>n\<close> times in a row.
\<close>

fun enrich_repeatedly ::
  "nat \<Rightarrow> index_keys_map \<Rightarrow> heap \<Rightarrow> nat \<Rightarrow> rng \<Rightarrow> error + (nat \<times> heap \<times> rng)" where
  "enrich_repeatedly 0 ikm h entity g = Inr (entity, h, g)"
| "enrich_repeatedly (Suc n) ikm h entity g =
     (case enrich_entity_with_index_keys ikm h entity g of
        Inl e \<Rightarrow> Inl e
      | Inr (entity', h', g') \<Rightarrow> enrich_repeatedly n ikm h' entity' g')"

text \<open>A configuration is usable when no shard range is empty.\<close>

fun shard_range_nonempty :: "template \<Rightarrow> bool" where
  "shard_range_nonempty (ShardIdTemplate shard_range) = (shard_range \<noteq> [])"
| "shard_range_nonempty _ = True"

definition shard_ranges_nonempty :: "index_keys_map \<Rightarrow> bool" where
  "shard_ranges_nonempty ikm = list_all (\<lambda>(k, t). shard_range_nonempty t) ikm"

text \<open>
  The loop of \<^verbatim>\<open>enrich_entity_with_index_keys\<close> consumes one draw of the generator for
  every \<^verbatim>\<open>ShardIdTemplate\<close> it evaluates and none for the other templates.
  \<open>draws_before k\<close> counts the draws made before the loop reaches the key \<open>k\<close>, and
  \<open>draws_total\<close> those of the whole loop.
\<close>

fun draws_of :: "template \<Rightarrow> nat" where
  "draws_of (ShardIdTemplate shard_range) = 1"
| "draws_of _ = 0"

fun draws_before :: "string \<Rightarrow> index_keys_map \<Rightarrow> nat" where
  "draws_before k [] = 0"
| "draws_before k ((index_key, template) # rest) =
     (if index_key = k then 0 else draws_of template + draws_before k rest)"

fun draws_total :: "index_keys_map \<Rightarrow> nat" where
  "draws_total [] = 0"
| "draws_total ((index_key, template) # rest) = draws_of template + draws_total rest"

section \<open>Barrier\<close>

text \<open>
  What a shard query returns: the dictionary of \<^verbatim>\<open>query_items\<close>, of which \<^verbatim>\<open>query_shards\<close>
  reads the keys \<^verbatim>\<open>Items\<close> and \<^verbatim>\<open>LastEvaluatedKey\<close> with \<^verbatim>\<open>get\<close>; an absent key is \<open>None\<close>.
  The empty dictionary \<^verbatim>\<open>{}\<close> has neither.
\<close>

record query_result =
  Items :: "entity list option"
  LastEvaluatedKey :: "cursor option"

definition empty_result :: query_result where
  "empty_result = \<lparr>Items = None, LastEvaluatedKey = None\<rparr>"

text \<open>Key conditions of \<^verbatim>\<open>boto3.dynamodb.conditions\<close>; \<^verbatim>\<open>a & b\<close> is \<open>And a b\<close>.\<close>

datatype condition =
    Eq string pyval
  | BeginsWith string pyval
  | Between string pyval pyval
  | And condition condition

text \<open>The keyword arguments of one shard's \<^verbatim>\<open>query_items\<close> call.\<close>

record query_kwargs =
  IndexName :: string
  KeyConditionExpression :: condition
  kw_ExclusiveStartKey :: "cursor option"
  kw_Limit :: "int option"
  kw_extra :: "(string \<times> pyval) list"

text \<open>
  One unit of work is a call of the shared callable in its own thread. Seen from the
  rendezvous, the call has returned a value, has raised, or is still running when the
  timeout of \<^verbatim>\<open>threading.Barrier\<close> (\<^verbatim>\<open>BARRIER_DEFAULT_TIMEOUT\<close>) elapses.
\<close>

datatype outcome = Returns query_result | Raises error | Pending

fun is_pending :: "outcome \<Rightarrow> bool" where
  "is_pending Pending = True"
| "is_pending _ = False"

record barrier =
  results :: "(int \<times> query_result) list"
  errors :: "(int \<times> error) list"

text \<open>\<^verbatim>\<open>Barrier.__init__\<close>: the assertion on the barrier size, and two empty dictionaries.\<close>

definition Barrier :: "(int \<times> query_kwargs) list \<Rightarrow> error + barrier" where
  "Barrier kwargs_mapping =
     (let barrier_size = length kwargs_mapping + 1
      in if barrier_size < 100 then Inr \<lparr>results = [], errors = []\<rparr> else Inl AssertionError)"

text \<open>
  \<^verbatim>\<open>self.barrier.wait()\<close> inside \<^verbatim>\<open>threaded_shell\<close>: on a broken barrier it raises
  \<^verbatim>\<open>BrokenBarrierError\<close>, which the thread records under its id.
\<close>

definition wait_in_thread :: "bool \<Rightarrow> int \<Rightarrow> barrier \<Rightarrow> barrier" where
  "wait_in_thread broken unit_id b =
     (if broken then b\<lparr>errors := AList.update unit_id BrokenBarrierError (errors b)\<rparr> else b)"

text \<open>
  \<^verbatim>\<open>threaded_shell\<close>, up to the moment the caller stops waiting. A unit that is still
  running then has only stored the empty dictionary under its id.
\<close>

definition threaded_shell ::
  "(query_kwargs \<Rightarrow> outcome) \<Rightarrow> bool \<Rightarrow> int \<Rightarrow> query_kwargs \<Rightarrow> barrier \<Rightarrow> barrier" where
  "threaded_shell callable broken unit_id kwargs b =
     (let b1 = b\<lparr>results := AList.update unit_id empty_result (results b)\<rparr>
      in case callable kwargs of
           Returns r \<Rightarrow> wait_in_thread broken unit_id (b1\<lparr>results := AList.update unit_id r (results b1)\<rparr>)
         | Raises exc \<Rightarrow> wait_in_thread broken unit_id (b1\<lparr>errors := AList.update unit_id exc (errors b1)\<rparr>)
         | Pending \<Rightarrow> b1)"

text \<open>
  \<^verbatim>\<open>Barrier.run\<close>. The threads are started in the order of \<^verbatim>\<open>kwargs_mapping\<close> and each
  writes only under its own id; they are run here one after the other in that order. The
  caller's own \<^verbatim>\<open>self.barrier.wait()\<close> is not inside a \<^verbatim>\<open>try\<close>: when a unit is still
  running at the timeout the barrier breaks and \<^verbatim>\<open>BrokenBarrierError\<close> leaves \<^verbatim>\<open>run\<close>.
\<close>

definition run ::
  "(query_kwargs \<Rightarrow> outcome) \<Rightarrow> (int \<times> query_kwargs) list \<Rightarrow> barrier \<Rightarrow>
   error + ((int \<times> query_result) list \<times> (int \<times> error) list)" where
  "run callable kwargs_mapping b0 =
     (let broken = list_ex (\<lambda>(unit_id, kwargs). is_pending (callable kwargs)) kwargs_mapping;
          b = fold (\<lambda>(unit_id, kwargs). threaded_shell callable broken unit_id kwargs) kwargs_mapping b0
      in if broken then Inl BrokenBarrierError else Inr (results b, errors b))"

section \<open>Continuation tokens\<close>

text \<open>
  \<^verbatim>\<open>pickle\<close>, \<^verbatim>\<open>zlib\<close> and \<^verbatim>\<open>base64\<close> are libraries outside the repository: their functions
  are parameters. Bytes are lists of characters; a decoder returns its result or raises.
\<close>

type_synonym cursor_map = "(int \<times> cursor) list"

record codec =
  pickle_dumps :: "cursor_map \<Rightarrow> string"
  pickle_loads :: "string \<Rightarrow> error + cursor_map"
  zlib_compress :: "string \<Rightarrow> string"
  zlib_decompress :: "string \<Rightarrow> error + string"
  b64encode :: "string \<Rightarrow> string"
  b64decode :: "string \<Rightarrow> error + string"

text \<open>\<^verbatim>\<open>_decompress_exclusive_start_key\<close>.\<close>

definition decompress_exclusive_start_key :: "codec \<Rightarrow> string \<Rightarrow> error + cursor_map" where
  "decompress_exclusive_start_key c key =
     (case b64decode c key of
        Inl e \<Rightarrow> Inl e
      | Inr zipped \<Rightarrow>
          (case zlib_decompress c zipped of
             Inl e \<Rightarrow> Inl e
           | Inr exclusive_start_keys_coded \<Rightarrow> pickle_loads c exclusive_start_keys_coded))"

text \<open>
  The loop of \<^verbatim>\<open>_compress_last_evaluated_keys\<close>:
  \<^verbatim>\<open>results.get(shard_id, {}).get("LastEvaluatedKey", {})\<close> for every configured shard.
\<close>

definition last_evaluated_key_of :: "(int \<times> query_result) list \<Rightarrow> int \<Rightarrow> cursor" where
  "last_evaluated_key_of res shard_id =
     (case map_of res shard_id of
        None \<Rightarrow> []
      | Some r \<Rightarrow> (case LastEvaluatedKey r of None \<Rightarrow> [] | Some k \<Rightarrow> k))"

definition collect_last_evaluated_keys :: "int list \<Rightarrow> (int \<times> query_result) list \<Rightarrow> cursor_map" where
  "collect_last_evaluated_keys sids res =
     fold (\<lambda>shard_id last_evaluated_keys.
             AList.update shard_id (last_evaluated_key_of res shard_id) last_evaluated_keys)
          sids []"

text \<open>\<^verbatim>\<open>any(d.values())\<close>: some cursor is a non-empty dictionary.\<close>

definition any_values :: "cursor_map \<Rightarrow> bool" where
  "any_values m = list_ex (\<lambda>(shard_id, k). k \<noteq> []) m"

definition compress_last_evaluated_keys ::
  "codec \<Rightarrow> int list \<Rightarrow> (int \<times> query_result) list \<Rightarrow> string" where
  "compress_last_evaluated_keys c sids res =
     (let last_evaluated_keys = collect_last_evaluated_keys sids res
      in if \<not> any_values last_evaluated_keys then []
         else b64encode c (zlib_compress c (pickle_dumps c last_evaluated_keys)))"

section \<open>The fan-out query\<close>

text \<open>
  \<^verbatim>\<open>"...".split("#")\<close> for a one-character separator; the result is never empty, so
  \<^verbatim>\<open>[-1]\<close> is its last element.
\<close>

fun split_chr :: "char \<Rightarrow> string \<Rightarrow> string list" where
  "split_chr sep [] = [[]]"
| "split_chr sep (c # cs) =
     (if c = sep then [] # split_chr sep cs
      else (case split_chr sep cs of
              [] \<Rightarrow> [[c]]
            | w # ws \<Rightarrow> (c # w) # ws))"

text \<open>
  The loop of \<^verbatim>\<open>_sort_by_and_add_priority\<close>: \<^verbatim>\<open>item[sort_key_name]\<close> raises \<^verbatim>\<open>KeyError\<close> on
  an item without the attribute, and \<^verbatim>\<open>.split\<close> raises \<^verbatim>\<open>AttributeError\<close> on a value that
  is no string.
\<close>

fun add_priority :: "string \<Rightarrow> entity list \<Rightarrow> error + entity list" where
  "add_priority sort_key_name [] = Inr []"
| "add_priority sort_key_name (item # items) =
     (case item sort_key_name of
        None \<Rightarrow> Inl KeyError
      | Some (VStr s) \<Rightarrow>
          (case add_priority sort_key_name items of
             Inl e \<Rightarrow> Inl e
           | Inr items' \<Rightarrow> Inr (item(''priority'' \<mapsto> VStr (last (split_chr CHR ''#'' s))) # items'))
      | Some _ \<Rightarrow> Inl AttributeError)"

text \<open>
  The sort key \<^verbatim>\<open>lambda item: item["priority"]\<close>; after the loop every item holds a string
  there. Python's \<^verbatim>\<open>list.sort\<close> is stable, as \<open>sort_key\<close> is, and compares strings
  lexicographically by character code.
\<close>

definition priority_of :: "entity \<Rightarrow> string" where
  "priority_of item = (case item ''priority'' of Some (VStr s) \<Rightarrow> s | _ \<Rightarrow> [])"

text \<open>
  \<^verbatim>\<open>_sort_by_and_add_priority\<close>; \<^verbatim>\<open>constants.INDEX_NAME_SORT_KEY_MAPPING\<close> is not part of the
  sources and is a parameter.
\<close>

definition sort_by_and_add_priority ::
  "(string \<rightharpoonup> string) \<Rightarrow> entity list \<Rightarrow> string \<Rightarrow> error + entity list" where
  "sort_by_and_add_priority index_name_sort_key_mapping items index_name =
     (case index_name_sort_key_mapping index_name of
        None \<Rightarrow> Inr items
      | Some sort_key_name \<Rightarrow>
          if items \<noteq> [] \<and> sort_key_name \<noteq> [] then
            (case add_priority sort_key_name items of
               Inl e \<Rightarrow> Inl e
             | Inr items' \<Rightarrow> Inr (sort_key priority_of items'))
          else Inr items)"

text \<open>
  \<^verbatim>\<open>additional_request_attributes\<close>: the token under \<^verbatim>\<open>ExclusiveStartKey\<close>, an integer
  \<^verbatim>\<open>Limit\<close>, and attributes passed through.
\<close>

record request_attributes =
  ExclusiveStartKey :: "string option"
  Limit :: "int option"
  extra :: "(string \<times> pyval) list"

text \<open>
  \<^verbatim>\<open>math.ceil(int(limit) / len(self.shard_ids))\<close>, exact for limits below \<open>2 ^ 53\<close>.
\<close>

definition limit_per_shard :: "int \<Rightarrow> nat \<Rightarrow> error + int" where
  "limit_per_shard limit n =
     (if n = 0 then Inl ZeroDivisionError else Inr (- ((- limit) div int n)))"

text \<open>
  The receiver of \<^verbatim>\<open>query_shards\<close>: the configured shard ids, the store callable
  \<^verbatim>\<open>self.query_items\<close>, the libraries of the token, and the sort-key table.
\<close>

record query_mixin =
  shard_ids :: "int list"
  query_items :: "query_kwargs \<Rightarrow> outcome"
  token_codec :: codec
  sort_key_mapping :: "string \<rightharpoonup> string"

text \<open>
  The loop that builds \<^verbatim>\<open>kwargs_mapping\<close>. \<open>start_key\<close> is the entry
  \<^verbatim>\<open>additional_request_attributes["ExclusiveStartKey"]\<close>, which the loop overwrites and every
  later \<^verbatim>\<open>dict(..., **additional_request_attributes)\<close> copies. \<open>exclusive_start_keys\<close> is
  \<open>None\<close> when no token was supplied.
\<close>

fun build_kwargs_mapping ::
  "string \<Rightarrow> condition option \<Rightarrow> cursor_map option \<Rightarrow> int option \<Rightarrow> (string \<times> pyval) list \<Rightarrow>
   int list \<Rightarrow> cursor option \<Rightarrow> (int \<times> query_kwargs) list \<Rightarrow> error + (int \<times> query_kwargs) list" where
  "build_kwargs_mapping index_name sk_condition exclusive_start_keys limit ex [] start_key kwargs_mapping =
     Inr kwargs_mapping"
| "build_kwargs_mapping index_name sk_condition exclusive_start_keys limit ex (shard_id # rest) start_key
     kwargs_mapping =
     (let pk_condition = Eq ''s_id'' (VStr (str_int shard_id));
          key_condition = (case sk_condition of None \<Rightarrow> pk_condition | Some sk \<Rightarrow> And pk_condition sk)
      in case exclusive_start_keys of
           None \<Rightarrow>
             build_kwargs_mapping index_name sk_condition exclusive_start_keys limit ex rest start_key
               (AList.update shard_id
                  \<lparr>IndexName = index_name, KeyConditionExpression = key_condition,
                   kw_ExclusiveStartKey = start_key, kw_Limit = limit, kw_extra = ex\<rparr>
                  kwargs_mapping)
         | Some keys \<Rightarrow>
             (case map_of keys shard_id of
                None \<Rightarrow> Inl KeyError
              | Some exclusive_start_key \<Rightarrow>
                  if exclusive_start_key = [] then
                    build_kwargs_mapping index_name sk_condition exclusive_start_keys limit ex rest
                      start_key kwargs_mapping
                  else
                    build_kwargs_mapping index_name sk_condition exclusive_start_keys limit ex rest
                      (Some exclusive_start_key)
                      (AList.update shard_id
                         \<lparr>IndexName = index_name, KeyConditionExpression = key_condition,
                          kw_ExclusiveStartKey = Some exclusive_start_key, kw_Limit = limit,
                          kw_extra = ex\<rparr>
                         kwargs_mapping)))"

text \<open>The merged page that \<^verbatim>\<open>query_shards\<close> returns.\<close>

record page =
  page_Items :: "entity list"
  page_LastEvaluatedKey :: "string option"

definition flatten_items :: "(int \<times> query_result) list \<Rightarrow> entity list" where
  "flatten_items res =
     concat (map (\<lambda>(shard_id, value). case Items value of None \<Rightarrow> [] | Some items \<Rightarrow> items) res)"

text \<open>The token is decoded when it is present and not the empty string.\<close>

definition decode_supplied_token :: "codec \<Rightarrow> string option \<Rightarrow> error + cursor_map option" where
  "decode_supplied_token c exclusive_start_keys_coded =
     (case exclusive_start_keys_coded of
        None \<Rightarrow> Inr None
      | Some token \<Rightarrow>
          if token = [] then Inr None
          else (case decompress_exclusive_start_key c token of
                  Inl e \<Rightarrow> Inl e
                | Inr keys \<Rightarrow> Inr (Some keys)))"

definition divide_limit :: "int option \<Rightarrow> nat \<Rightarrow> error + int option" where
  "divide_limit limit n =
     (case limit of
        None \<Rightarrow> Inr None
      | Some l \<Rightarrow> (case limit_per_shard l n of Inl e \<Rightarrow> Inl e | Inr l' \<Rightarrow> Inr (Some l')))"

text \<open>
  \<^verbatim>\<open>query_shards\<close> up to the construction of \<^verbatim>\<open>kwargs_mapping\<close>: the token is popped and
  decoded, the limit divided, one request built per shard that is not skipped.
\<close>

definition kwargs_mapping_of ::
  "query_mixin \<Rightarrow> string \<Rightarrow> condition option \<Rightarrow> request_attributes \<Rightarrow>
   error + (int \<times> query_kwargs) list" where
  "kwargs_mapping_of self index_name sk_condition additional_request_attributes =
     (case decode_supplied_token (token_codec self) (ExclusiveStartKey additional_request_attributes) of
        Inl e \<Rightarrow> Inl e
      | Inr exclusive_start_keys \<Rightarrow>
          (case divide_limit (Limit additional_request_attributes) (length (shard_ids self)) of
             Inl e \<Rightarrow> Inl e
           | Inr limit \<Rightarrow>
               build_kwargs_mapping index_name sk_condition exclusive_start_keys limit
                 (extra additional_request_attributes) (shard_ids self) None []))"

text \<open>
  \<^verbatim>\<open>query_shards\<close> after the barrier: the items of all results are flattened in the order
  of \<^verbatim>\<open>results.values()\<close>, given a priority and sorted, and the cursors are encoded. Logging
  the errors has no effect on the result.
\<close>

definition merged_page :: "query_mixin \<Rightarrow> string \<Rightarrow> (int \<times> query_result) list \<Rightarrow> error + page" where
  "merged_page self index_name res =
     (case sort_by_and_add_priority (sort_key_mapping self) (flatten_items res) index_name of
        Inl e \<Rightarrow> Inl e
      | Inr items \<Rightarrow>
          (let compressed_last_evaluated_keys =
                 compress_last_evaluated_keys (token_codec self) (shard_ids self) res
           in Inr \<lparr>page_Items = items,
                   page_LastEvaluatedKey =
                     (if compressed_last_evaluated_keys \<noteq> [] then Some compressed_last_evaluated_keys
                      else None)\<rparr>))"

definition query_shards ::
  "query_mixin \<Rightarrow> string \<Rightarrow> condition option \<Rightarrow> request_attributes \<Rightarrow> error + page" where
  "query_shards self index_name sk_condition additional_request_attributes =
     (case kwargs_mapping_of self index_name sk_condition additional_request_attributes of
        Inl e \<Rightarrow> Inl e
      | Inr kwargs_mapping \<Rightarrow>
          (case Barrier kwargs_mapping of
             Inl e \<Rightarrow> Inl e
           | Inr b \<Rightarrow>
               (case run (query_items self) kwargs_mapping b of
                  Inl e \<Rightarrow> Inl e
                | Inr (res, errs) \<Rightarrow> merged_page self index_name res)))"

section \<open>Library contracts and a stand-in codec\<close>

text \<open>
  What the round trip of a token needs from the libraries: on the bytes that encoding the
  cursor map \<open>m\<close> produces, each decoder returns what its encoder was given.
\<close>

definition codec_inverts :: "codec \<Rightarrow> cursor_map \<Rightarrow> bool" where
  "codec_inverts c m \<longleftrightarrow>
     pickle_loads c (pickle_dumps c m) = Inr m \<and>
     zlib_decompress c (zlib_compress c (pickle_dumps c m)) = Inr (pickle_dumps c m) \<and>
     b64decode c (b64encode c (zlib_compress c (pickle_dumps c m))) =
       Inr (zlib_compress c (pickle_dumps c m))"

text \<open>
  A small codec for evaluating concrete calls: pickling looks the cursor map up in a finite
  table of names, compression puts one byte in front, and the transport encoding is the
  identity. Each decoder rejects what its encoder cannot have produced.
\<close>

definition table_codec :: "(cursor_map \<times> string) list \<Rightarrow> codec" where
  "table_codec table =
     \<lparr>pickle_dumps = (\<lambda>m. case map_of table m of Some s \<Rightarrow> s | None \<Rightarrow> []),
      pickle_loads =
        (\<lambda>s. case map_of (map (\<lambda>(m, n). (n, m)) table) s of
                Some m \<Rightarrow> Inr m
              | None \<Rightarrow> Inl (LibraryError ''pickle'')),
      zlib_compress = (\<lambda>b. CHR ''z'' # b),
      zlib_decompress =
        (\<lambda>b. case b of
                [] \<Rightarrow> Inl (LibraryError ''zlib'')
              | c # r \<Rightarrow> if c = CHR ''z'' then Inr r else Inl (LibraryError ''zlib'')),
      b64encode = (\<lambda>b. b),
      b64decode = (\<lambda>s. Inr s)\<rparr>"

section \<open>Properties of the index mapping\<close>

lemma str_format_error: "str_format t d = Inl e \<Longrightarrow> e = KeyError"
  by (induction t d rule: str_format.induct) (auto split: sum.splits option.splits)

lemma format_template_returns: "\<exists>v. format_template t d = Inr v"
proof (cases "str_format t d")
  case (Inl e)
  then have "e = KeyError" by (rule str_format_error)
  with Inl show ?thesis by (simp add: format_template_def)
next
  case (Inr s)
  then show ?thesis by (simp add: format_template_def)
qed

lemma value_from_template_returns:
  "shard_range_nonempty t \<Longrightarrow> \<exists>v g'. value_from_template k t e g = Inr (v, g')"
proof (cases t)
  case (ShardIdTemplate r)
  assume "shard_range_nonempty t"
  with ShardIdTemplate show ?thesis
    by (simp add: random_shard_id_def random_choice_def)
next
  case (StrTemplate s)
  then show ?thesis using format_template_returns [of s e] by auto
next
  case (CallableTemplate f)
  then show ?thesis by (cases "f e") auto
next
  case OtherTemplate
  then show ?thesis by simp
qed

lemma enrich_loop_returns:
  "shard_ranges_nonempty ikm \<Longrightarrow> \<exists>h' g'. enrich_loop ikm a h g = Inr (h', g')"
proof (induction ikm arbitrary: h g)
  case Nil
  then show ?case by simp
next
  case (Cons p ikm)
  obtain k t where p: "p = (k, t)" by (cases p)
  from Cons.prems p have t: "shard_range_nonempty t" and rest: "shard_ranges_nonempty ikm"
    by (simp_all add: shard_ranges_nonempty_def)
  from value_from_template_returns [OF t] obtain v g1
    where v: "value_from_template k t (cells h a) g = Inr (v, g1)" by blast
  show ?case
  proof (cases v)
    case EmptyValue
    with v p Cons.IH [OF rest, of h g1] show ?thesis by simp
  next
    case (Value x)
    with v p Cons.IH [OF rest, of "setitem h a k x" g1] show ?thesis by simp
  qed
qed

lemma setitem_other: "b \<noteq> a \<Longrightarrow> cells (setitem h a k v) b = cells h b"
  by (simp add: setitem_def)

lemma setitem_same: "cells (setitem h a k v) a = (cells h a)(k \<mapsto> v)"
  by (simp add: setitem_def)

lemma enrich_loop_other_cells:
  "enrich_loop ikm a h g = Inr (h', g') \<Longrightarrow> b \<noteq> a \<Longrightarrow> cells h' b = cells h b"
proof (induction ikm a h g rule: enrich_loop.induct)
  case (1 a h g)
  then show ?case by simp
next
  case (2 index_key template rest a h g)
  then show ?case
    by (auto split: sum.splits tvalue.splits simp: setitem_other)
qed

lemma enrich_loop_other_keys:
  "enrich_loop ikm a h g = Inr (h', g') \<Longrightarrow> k \<notin> fst ` set ikm \<Longrightarrow> cells h' a k = cells h a k"
proof (induction ikm a h g rule: enrich_loop.induct)
  case (1 a h g)
  then show ?case by simp
next
  case (2 index_key template rest a h g)
  then show ?case
    by (auto split: sum.splits tvalue.splits simp: setitem_same)
qed

lemma pop_key_other: "b \<noteq> a \<Longrightarrow> cells (pop_key h a k) b = cells h b"
  by (simp add: pop_key_def)

lemma pop_key_same: "cells (pop_key h a k) a = (cells h a)(k := None)"
  by (simp add: pop_key_def)

lemma drop_loop_other_cells: "b \<noteq> a \<Longrightarrow> cells (drop_loop ks a h) b = cells h b"
  by (induction ks arbitrary: h) (simp_all add: pop_key_other)

lemma drop_loop_same: "cells (drop_loop ks a h) a = cells h a |` (- set ks)"
proof (induction ks arbitrary: h)
  case Nil
  then show ?case by simp
next
  case (Cons k ks)
  show ?case
    by (rule ext) (simp add: Cons.IH pop_key_same restrict_map_def)
qed

lemma drop_loop_next_free: "next_free (drop_loop ks a h) = next_free h"
  by (induction ks arbitrary: h) (simp_all add: pop_key_def)

lemma enrich_loop_next_free:
  "enrich_loop ikm a h g = Inr (h', g') \<Longrightarrow> next_free h' = next_free h"
proof (induction ikm a h g rule: enrich_loop.induct)
  case (1 a h g)
  then show ?case by simp
next
  case (2 index_key template rest a h g)
  then show ?case
    by (auto split: sum.splits tvalue.splits simp: setitem_def)
qed

lemma enrich_loop_append:
  "enrich_loop (xs @ ys) a h g =
     (case enrich_loop xs a h g of Inl e \<Rightarrow> Inl e | Inr (h1, g1) \<Rightarrow> enrich_loop ys a h1 g1)"
  by (induction xs a h g rule: enrich_loop.induct) (auto split: sum.splits tvalue.splits)

lemma enrich_entity_unfold:
  "enrich_entity_with_index_keys ikm h entity g = Inr (e', h', g') \<longleftrightarrow>
     e' = next_free h \<and> enrich_loop ikm (next_free h) (snd (deepcopy h entity)) g = Inr (h', g')"
  by (auto simp: enrich_entity_with_index_keys_def deepcopy_def split: sum.splits)

lemma deepcopy_cells_new: "cells (snd (deepcopy h a)) (next_free h) = cells h a"
  by (simp add: deepcopy_def)

lemma deepcopy_cells_old: "b < next_free h \<Longrightarrow> cells (snd (deepcopy h a)) b = cells h b"
  by (simp add: deepcopy_def)

lemma deepcopy_next_free: "next_free (snd (deepcopy h a)) = Suc (next_free h)"
  by (simp add: deepcopy_def)

lemma enrich_entity_returns:
  assumes "shard_ranges_nonempty ikm"
  shows "\<exists>h' g'. enrich_entity_with_index_keys ikm h entity g = Inr (next_free h, h', g')"
  using enrich_loop_returns [OF assms, of "next_free h" "snd (deepcopy h entity)" g]
  by (auto simp: enrich_entity_unfold)

text \<open>
  Claim C8. For an entity held by the caller and a configuration whose shard ranges are
  not empty, \<^verbatim>\<open>enrich_entity_with_index_keys\<close> returns, and dropping the index keys from
  what it returned gives the caller's entity restricted to the attributes that are not
  index keys. Both operations work on a fresh copy: the object passed to each of them
  holds afterwards what it held before.
\<close>

theorem enrich_drop_inverse:
  assumes "entity < next_free h" and "shard_ranges_nonempty ikm"
  shows "\<exists>enriched h1 g1 svelte h2.
     enrich_entity_with_index_keys ikm h entity g = Inr (enriched, h1, g1) \<and>
     drop_index_keys_from_entity ikm h1 enriched = (svelte, h2) \<and>
     cells h2 svelte = cells h entity |` (- fst ` set ikm) \<and>
     cells h1 entity = cells h entity \<and>
     cells h2 entity = cells h entity \<and>
     cells h2 enriched = cells h1 enriched"
proof -
  let ?a = "next_free h"
  let ?hc = "snd (deepcopy h entity)"
  from enrich_entity_returns [OF assms(2)] obtain h1 g1
    where run: "enrich_entity_with_index_keys ikm h entity g = Inr (?a, h1, g1)" by blast
  then have loop: "enrich_loop ikm ?a ?hc g = Inr (h1, g1)"
    by (simp add: enrich_entity_unfold)
  have nf1: "next_free h1 = Suc ?a"
    using enrich_loop_next_free [OF loop] by (simp add: deepcopy_next_free)
  have neq: "entity \<noteq> ?a" using assms(1) by simp
  have input1: "cells h1 entity = cells h entity"
    using enrich_loop_other_cells [OF loop neq] assms(1) by (simp add: deepcopy_cells_old)
  have enriched_other: "cells h1 ?a k = cells h entity k" if "k \<notin> fst ` set ikm" for k
    using enrich_loop_other_keys [OF loop that] by (simp add: deepcopy_cells_new)
  let ?s = "next_free h1"
  let ?h2 = "drop_loop (map fst ikm) ?s (snd (deepcopy h1 ?a))"
  have drop: "drop_index_keys_from_entity ikm h1 ?a = (?s, ?h2)"
    by (simp add: drop_index_keys_from_entity_def deepcopy_def)
  have svelte: "cells ?h2 ?s = cells h1 ?a |` (- fst ` set ikm)"
    by (simp add: drop_loop_same deepcopy_cells_new)
  have "cells h1 ?a |` (- fst ` set ikm) = cells h entity |` (- fst ` set ikm)"
    by (rule ext) (simp add: restrict_map_def enriched_other)
  with svelte have inverse: "cells ?h2 ?s = cells h entity |` (- fst ` set ikm)" by simp
  have "entity \<noteq> ?s" using assms(1) nf1 by simp
  then have input2: "cells ?h2 entity = cells h entity"
    using input1 assms(1) nf1 by (simp add: drop_loop_other_cells deepcopy_cells_old)
  have "?a \<noteq> ?s" using nf1 by simp
  then have input3: "cells ?h2 ?a = cells h1 ?a"
    using nf1 by (simp add: drop_loop_other_cells deepcopy_cells_old)
  from run drop inverse input1 input2 input3 show ?thesis by blast
qed

theorem enrich_drop_inverse_witness:
  "(0::nat) < next_free \<lparr>cells = (\<lambda>a. Map.empty)(0 := [''articleType'' \<mapsto> VStr ''shoe'']), next_free = 1\<rparr> \<and>
   shard_ranges_nonempty [(''s_id'', ShardIdTemplate [0, 1, 2]), (''gsi'', StrTemplate [Lit ''t#'', Field ''articleType''])] \<and>
   (\<exists>enriched h1 g1 svelte h2.
     enrich_entity_with_index_keys [(''s_id'', ShardIdTemplate [0, 1, 2]), (''gsi'', StrTemplate [Lit ''t#'', Field ''articleType''])]
       \<lparr>cells = (\<lambda>a. Map.empty)(0 := [''articleType'' \<mapsto> VStr ''shoe'']), next_free = 1\<rparr> 0 (\<lambda>n. 4) = Inr (enriched, h1, g1) \<and>
     drop_index_keys_from_entity [(''s_id'', ShardIdTemplate [0, 1, 2]), (''gsi'', StrTemplate [Lit ''t#'', Field ''articleType''])] h1 enriched = (svelte, h2) \<and>
     cells h2 svelte = [''articleType'' \<mapsto> VStr ''shoe''] \<and>
     cells h1 0 = [''articleType'' \<mapsto> VStr ''shoe''] \<and>
     cells h2 0 = [''articleType'' \<mapsto> VStr ''shoe''] \<and>
     cells h2 enriched = cells h1 enriched)"
  using enrich_drop_inverse [of 0 "\<lparr>cells = (\<lambda>a. Map.empty)(0 := [''articleType'' \<mapsto> VStr ''shoe'']), next_free = 1\<rparr>"
     "[(''s_id'', ShardIdTemplate [0, 1, 2]), (''gsi'', StrTemplate [Lit ''t#'', Field ''articleType''])]" "\<lambda>n. 4"]
  by (simp add: shard_ranges_nonempty_def)

lemma random_shard_id_in_range:
  assumes "random_shard_id r g = Inr (drawn, g1)"
  shows "\<exists>i\<in>set r. drawn = str_int i"
proof -
  from assms have ne: "r \<noteq> []" and d: "drawn = str_int (r ! (g 0 mod length r))"
    by (auto simp: random_shard_id_def random_choice_def split: if_splits)
  from ne have "r ! (g 0 mod length r) \<in> set r" by simp
  with d show ?thesis by blast
qed

lemma enrich_loop_shard_key:
  assumes "distinct (map fst ikm)" and "(k, ShardIdTemplate r) \<in> set ikm"
    and "enrich_loop ikm a h g = Inr (h', g')"
  shows "\<exists>i\<in>set r. cells h' a k = Some (case cells h a k of Some v \<Rightarrow> v | None \<Rightarrow> VStr (str_int i))"
  using assms
proof (induction ikm a h g rule: enrich_loop.induct)
  case (1 a h g)
  then show ?case by simp
next
  case (2 index_key template rest a h g)
  show ?case
  proof (cases "index_key = k")
    case True
    with "2.prems" have tmpl: "template = ShardIdTemplate r" and fresh: "k \<notin> fst ` set rest"
      by (auto simp: rev_image_eqI)
    from "2.prems"(3) tmpl True obtain drawn g1 where
      draw: "random_shard_id r g = Inr (drawn, g1)" and
      rest: "enrich_loop rest a
               (setitem h a k (case cells h a k of Some v \<Rightarrow> v | None \<Rightarrow> VStr drawn)) g1 = Inr (h', g')"
      by (auto split: sum.splits)
    from random_shard_id_in_range [OF draw] obtain i where i: "i \<in> set r" and drawn: "drawn = str_int i"
      by blast
    from enrich_loop_other_keys [OF rest fresh] have
      "cells h' a k = Some (case cells h a k of Some v \<Rightarrow> v | None \<Rightarrow> VStr drawn)"
      by (simp add: setitem_same)
    with i drawn show ?thesis by blast
  next
    case False
    with "2.prems" have mem: "(k, ShardIdTemplate r) \<in> set rest" and dist: "distinct (map fst rest)"
      by auto
    from "2.prems"(3) obtain v g1 where
      val: "value_from_template index_key template (cells h a) g = Inr (v, g1)"
      by (auto split: sum.splits)
    show ?thesis
    proof (cases v)
      case EmptyValue
      with val "2.prems"(3) have "enrich_loop rest a h g1 = Inr (h', g')" by simp
      from "2.IH"(1) [OF val [symmetric, THEN sym] _ EmptyValue dist mem this] show ?thesis
        by simp
    next
      case (Value x)
      with val "2.prems"(3) have rest: "enrich_loop rest a (setitem h a index_key x) g1 = Inr (h', g')"
        by simp
      from "2.IH"(2) [OF val [symmetric, THEN sym] _ Value dist mem rest] False show ?thesis
        by (simp add: setitem_same)
    qed
  qed
qed

lemma enrich_entity_shard_key:
  assumes "distinct (map fst ikm)" and "(k, ShardIdTemplate r) \<in> set ikm"
    and "enrich_entity_with_index_keys ikm h entity g = Inr (e', h', g')"
  shows "\<exists>i\<in>set r. cells h' e' k = Some (case cells h entity k of Some v \<Rightarrow> v | None \<Rightarrow> VStr (str_int i))"
proof -
  from assms(3) have e': "e' = next_free h"
    and loop: "enrich_loop ikm (next_free h) (snd (deepcopy h entity)) g = Inr (h', g')"
    by (simp_all add: enrich_entity_unfold)
  from enrich_loop_shard_key [OF assms(1,2) loop] e' show ?thesis
    by (simp add: deepcopy_cells_new)
qed

lemma enrich_repeatedly_sticky:
  assumes "distinct (map fst ikm)" and "(k, ShardIdTemplate r) \<in> set ikm"
    and "shard_ranges_nonempty ikm"
  shows "cells h entity k = Some v \<Longrightarrow>
    \<exists>e' h' g'. enrich_repeatedly n ikm h entity g = Inr (e', h', g') \<and> cells h' e' k = Some v"
proof (induction n arbitrary: h entity g)
  case 0
  then show ?case by simp
next
  case (Suc n)
  from enrich_entity_returns [OF assms(3)] obtain h1 g1
    where step: "enrich_entity_with_index_keys ikm h entity g = Inr (next_free h, h1, g1)"
    by blast
  from enrich_entity_shard_key [OF assms(1,2) step] Suc.prems
  have "cells h1 (next_free h) k = Some v" by simp
  from Suc.IH [OF this, of g1] step show ?case by simp
qed

lemma value_from_template_rng:
  assumes "value_from_template index_key t e g = Inr (v, g1)"
  shows "g1 = (\<lambda>n. g (n + draws_of t))"
proof (cases t)
  case (ShardIdTemplate r)
  with assms show ?thesis
    by (auto simp: random_shard_id_def random_choice_def split: if_splits)
next
  case (StrTemplate s)
  with assms show ?thesis by (auto split: sum.splits)
next
  case (CallableTemplate f)
  with assms show ?thesis by (auto split: sum.splits)
next
  case OtherTemplate
  with assms show ?thesis by auto
qed

lemma enrich_loop_rng:
  assumes "enrich_loop ikm a h g = Inr (h', g')"
  shows "g' = (\<lambda>n. g (n + draws_total ikm))"
  using assms
proof (induction ikm a h g rule: enrich_loop.induct)
  case (1 a h g)
  then show ?case by simp
next
  case (2 index_key template rest a h g)
  from "2.prems" obtain v g1 where
    val: "value_from_template index_key template (cells h a) g = Inr (v, g1)"
    by (auto split: sum.splits)
  have g1: "g1 = (\<lambda>n. g (n + draws_of template))" by (rule value_from_template_rng [OF val])
  have "g' = (\<lambda>n. g1 (n + draws_total rest))"
  proof (cases v)
    case EmptyValue
    with val "2.prems" have "enrich_loop rest a h g1 = Inr (h', g')" by simp
    from "2.IH"(1) [OF val [symmetric, THEN sym] _ EmptyValue this] show ?thesis by simp
  next
    case (Value x)
    with val "2.prems" have "enrich_loop rest a (setitem h a index_key x) g1 = Inr (h', g')" by simp
    from "2.IH"(2) [OF val [symmetric, THEN sym] _ Value this] show ?thesis by simp
  qed
  with g1 have "g' = (\<lambda>n. g (n + draws_total rest + draws_of template))" by simp
  then show ?case by (simp add: ac_simps)
qed

lemma random_shard_id_draw:
  assumes "random_shard_id r g = Inr (drawn, g1)"
  shows "drawn = str_int (r ! (g 0 mod length r))"
  using assms by (auto simp: random_shard_id_def random_choice_def split: if_splits)

lemma enrich_loop_draw:
  assumes "distinct (map fst ikm)" and "(k, ShardIdTemplate r) \<in> set ikm"
    and "enrich_loop ikm a h g = Inr (h', g')" and "cells h a k = None"
  shows "cells h' a k = Some (VStr (str_int (r ! (g (draws_before k ikm) mod length r))))"
  using assms
proof (induction ikm a h g rule: enrich_loop.induct)
  case (1 a h g)
  then show ?case by simp
next
  case (2 index_key template rest a h g)
  show ?case
  proof (cases "index_key = k")
    case True
    with "2.prems" have tmpl: "template = ShardIdTemplate r" and fresh: "k \<notin> fst ` set rest"
      by (auto simp: rev_image_eqI)
    from "2.prems"(3,4) tmpl True obtain drawn g1 where
      draw: "random_shard_id r g = Inr (drawn, g1)" and
      rest: "enrich_loop rest a (setitem h a k (VStr drawn)) g1 = Inr (h', g')"
      by (auto split: sum.splits)
    from enrich_loop_other_keys [OF rest fresh]
    have "cells h' a k = Some (VStr drawn)" by (simp add: setitem_same)
    with random_shard_id_draw [OF draw] True show ?thesis by simp
  next
    case False
    with "2.prems" have mem: "(k, ShardIdTemplate r) \<in> set rest" and dist: "distinct (map fst rest)"
      by auto
    from "2.prems"(3) obtain v g1 where
      val: "value_from_template index_key template (cells h a) g = Inr (v, g1)"
      by (auto split: sum.splits)
    have g1: "g1 = (\<lambda>n. g (n + draws_of template))" by (rule value_from_template_rng [OF val])
    have "cells h' a k = Some (VStr (str_int (r ! (g1 (draws_before k rest) mod length r))))"
    proof (cases v)
      case EmptyValue
      with val "2.prems"(3) have "enrich_loop rest a h g1 = Inr (h', g')" by simp
      from "2.IH"(1) [OF val [symmetric, THEN sym] _ EmptyValue dist mem this "2.prems"(4)]
      show ?thesis by simp
    next
      case (Value x)
      with val "2.prems"(3) have rest: "enrich_loop rest a (setitem h a index_key x) g1 = Inr (h', g')"
        by simp
      from False "2.prems"(4) have "cells (setitem h a index_key x) a k = None"
        by (simp add: setitem_same)
      from "2.IH"(2) [OF val [symmetric, THEN sym] _ Value dist mem rest this]
      show ?thesis by simp
    qed
    with g1 False show ?thesis by (simp add: ac_simps)
  qed
qed

lemma enrich_entity_draw:
  assumes "distinct (map fst ikm)" and "(k, ShardIdTemplate r) \<in> set ikm"
    and "enrich_entity_with_index_keys ikm h entity g = Inr (e', h', g')"
    and "cells h entity k = None"
  shows "g' = (\<lambda>n. g (n + draws_total ikm)) \<and>
         cells h' e' k = Some (VStr (str_int (r ! (g (draws_before k ikm) mod length r))))"
proof -
  from assms(3) have e': "e' = next_free h"
    and loop: "enrich_loop ikm (next_free h) (snd (deepcopy h entity)) g = Inr (h', g')"
    by (simp_all add: enrich_entity_unfold)
  from assms(4) have "cells (snd (deepcopy h entity)) (next_free h) k = None"
    by (simp add: deepcopy_cells_new)
  from enrich_loop_draw [OF assms(1,2) loop this] enrich_loop_rng [OF loop] e'
  show ?thesis by simp
qed

lemma shard_range_of_member:
  assumes "shard_ranges_nonempty ikm" and "(k, ShardIdTemplate r) \<in> set ikm"
  shows "r \<noteq> []"
  using assms by (auto simp: shard_ranges_nonempty_def list_all_iff)

text \<open>
  Claim C9. Under a shard-id index key, an entity that already carries a value keeps it
  through any number of successive calls of \<^verbatim>\<open>enrich_entity_with_index_keys\<close>. An entity
  without the key receives a fresh draw: the string of the member of the configured shard
  range that the generator's draw at that point of the loop selects, and the call leaves
  the generator advanced by one draw per \<^verbatim>\<open>ShardIdTemplate\<close> of the configuration.
\<close>

theorem sticky_shard_assignment:
  assumes "distinct (map fst ikm)" and "(k, ShardIdTemplate r) \<in> set ikm"
    and "shard_ranges_nonempty ikm"
  shows "(cells h entity k = Some v \<longrightarrow>
            (\<exists>e' h' g'. enrich_repeatedly n ikm h entity g = Inr (e', h', g') \<and>
                         cells h' e' k = Some v)) \<and>
         (cells h entity k = None \<longrightarrow>
            (\<exists>e' h'. enrich_entity_with_index_keys ikm h entity g =
                        Inr (e', h', (\<lambda>m. g (m + draws_total ikm))) \<and>
                      r ! (g (draws_before k ikm) mod length r) \<in> set r \<and>
                      cells h' e' k =
                        Some (VStr (str_int (r ! (g (draws_before k ikm) mod length r))))))"
proof (intro conjI impI)
  assume "cells h entity k = Some v"
  then show "\<exists>e' h' g'. enrich_repeatedly n ikm h entity g = Inr (e', h', g') \<and> cells h' e' k = Some v"
    by (rule enrich_repeatedly_sticky [OF assms])
next
  assume absent: "cells h entity k = None"
  from enrich_entity_returns [OF assms(3)] obtain h1 g1
    where step: "enrich_entity_with_index_keys ikm h entity g = Inr (next_free h, h1, g1)"
    by blast
  from enrich_entity_draw [OF assms(1,2) step absent]
  have g1: "g1 = (\<lambda>m. g (m + draws_total ikm))"
    and val: "cells h1 (next_free h) k =
                Some (VStr (str_int (r ! (g (draws_before k ikm) mod length r))))"
    by simp_all
  from shard_range_of_member [OF assms(3,2)]
  have mem: "r ! (g (draws_before k ikm) mod length r) \<in> set r" by simp
  from step g1 have "enrich_entity_with_index_keys ikm h entity g =
                       Inr (next_free h, h1, (\<lambda>m. g (m + draws_total ikm)))" by simp
  with mem val show "\<exists>e' h'. enrich_entity_with_index_keys ikm h entity g =
                        Inr (e', h', (\<lambda>m. g (m + draws_total ikm))) \<and>
                      r ! (g (draws_before k ikm) mod length r) \<in> set r \<and>
                      cells h' e' k =
                        Some (VStr (str_int (r ! (g (draws_before k ikm) mod length r))))"
    by blast
qed

theorem sticky_shard_assignment_witness:
  "distinct (map fst [(''t_id'', ShardIdTemplate [7, 8]), (''s_id'', ShardIdTemplate [0, 1, 2])]) \<and>
   (''s_id'', ShardIdTemplate [0, 1, 2]) \<in>
     set [(''t_id'', ShardIdTemplate [7, 8]), (''s_id'', ShardIdTemplate [0, 1, 2])] \<and>
   shard_ranges_nonempty [(''t_id'', ShardIdTemplate [7, 8]), (''s_id'', ShardIdTemplate [0, 1, 2])] \<and>
   cells \<lparr>cells = (\<lambda>a. Map.empty)(0 := [''s_id'' \<mapsto> VStr ''2'']), next_free = 1\<rparr> 0 ''s_id'' =
     Some (VStr ''2'') \<and>
   (\<exists>e' h' g'.
      enrich_repeatedly 3 [(''t_id'', ShardIdTemplate [7, 8]), (''s_id'', ShardIdTemplate [0, 1, 2])]
        \<lparr>cells = (\<lambda>a. Map.empty)(0 := [''s_id'' \<mapsto> VStr ''2'']), next_free = 1\<rparr> 0 (\<lambda>n. n) =
        Inr (e', h', g') \<and>
      cells h' e' ''s_id'' = Some (VStr ''2'')) \<and>
   cells \<lparr>cells = (\<lambda>a. Map.empty)(0 := [''articleType'' \<mapsto> VStr ''shoe'']), next_free = 1\<rparr> 0 ''s_id'' =
     None \<and>
   draws_before ''s_id'' [(''t_id'', ShardIdTemplate [7, 8]), (''s_id'', ShardIdTemplate [0, 1, 2])] = 1 \<and>
   draws_total [(''t_id'', ShardIdTemplate [7, 8]), (''s_id'', ShardIdTemplate [0, 1, 2])] = 2 \<and>
   (\<exists>e' h'.
      enrich_entity_with_index_keys
        [(''t_id'', ShardIdTemplate [7, 8]), (''s_id'', ShardIdTemplate [0, 1, 2])]
        \<lparr>cells = (\<lambda>a. Map.empty)(0 := [''articleType'' \<mapsto> VStr ''shoe'']), next_free = 1\<rparr> 0
        (\<lambda>n. 4 + n) = Inr (e', h', (\<lambda>m. 4 + (m + 2))) \<and>
      cells h' e' ''s_id'' = Some (VStr ''2''))"
proof -
  let ?ikm = "[(''t_id'', ShardIdTemplate [7, 8]), (''s_id'', ShardIdTemplate [0, 1, 2])]"
  let ?h = "\<lparr>cells = (\<lambda>a. Map.empty)(0 := [''s_id'' \<mapsto> VStr ''2'']), next_free = 1\<rparr>"
  let ?h2 = "\<lparr>cells = (\<lambda>a. Map.empty)(0 := [''articleType'' \<mapsto> VStr ''shoe'']), next_free = 1\<rparr>"
  have 1: "distinct (map fst ?ikm)" by simp
  have 2: "(''s_id'', ShardIdTemplate [0, 1, 2]) \<in> set ?ikm" by simp
  have 3: "shard_ranges_nonempty ?ikm" by (simp add: shard_ranges_nonempty_def)
  have 4: "cells ?h 0 ''s_id'' = Some (VStr ''2'')" by simp
  have 5: "cells ?h2 0 ''s_id'' = None" by simp
  have 6: "draws_before ''s_id'' ?ikm = 1" by simp
  have 7: "draws_total ?ikm = 2" by simp
  have 8: "str_int ([0, 1, 2] ! ((4 + 1) mod length [0 :: int, 1, 2])) = ''2''"
    by (simp add: str_int_def str_nat.simps)
  from sticky_shard_assignment [OF 1 2 3, of ?h 0 "VStr ''2''" 3 "\<lambda>n. n"] 4
  have a: "\<exists>e' h' g'. enrich_repeatedly 3 ?ikm ?h 0 (\<lambda>n. n) = Inr (e', h', g') \<and>
             cells h' e' ''s_id'' = Some (VStr ''2'')"
    by blast
  from sticky_shard_assignment [OF 1 2 3, of ?h2 0 _ _ "\<lambda>n. 4 + n"] 5
  have "\<exists>e' h'. enrich_entity_with_index_keys ?ikm ?h2 0 (\<lambda>n. 4 + n) =
                   Inr (e', h', (\<lambda>m. 4 + (m + draws_total ?ikm))) \<and>
                 cells h' e' ''s_id'' =
                   Some (VStr (str_int ([0, 1, 2] ! ((4 + draws_before ''s_id'' ?ikm) mod length [0 :: int, 1, 2]))))"
    by blast
  then have b: "\<exists>e' h'. enrich_entity_with_index_keys ?ikm ?h2 0 (\<lambda>n. 4 + n) =
                   Inr (e', h', (\<lambda>m. 4 + (m + 2))) \<and>
                 cells h' e' ''s_id'' = Some (VStr ''2'')"
    unfolding 6 7 8 .
  from 1 2 3 4 a 5 6 7 b show ?thesis by (intro conjI)
qed

lemma str_format_KeyError_iff:
  "str_format t d = Inl KeyError \<longleftrightarrow> (\<exists>f. Field f \<in> set t \<and> d f = None)"
  by (induction t d rule: str_format.induct) (auto split: sum.splits option.splits dest: str_format_error)

lemma format_template_empty:
  assumes "str_format t d = Inr [] \<or> (\<exists>f. Field f \<in> set t \<and> d f = None)"
  shows "format_template t d = Inr EmptyValue"
proof -
  from assms have "str_format t d = Inr [] \<or> str_format t d = Inl KeyError"
    by (simp add: str_format_KeyError_iff)
  then show ?thesis by (auto simp: format_template_def)
qed

text \<open>
  Claim C10. When a string template formats to the empty string against the entity as
  enriched by the preceding index keys, or references an attribute that this entity
  lacks, \<^verbatim>\<open>enrich_entity_with_index_keys\<close> does not assign the key: the enriched entity
  holds under it what the caller's entity held (nothing, when the key was absent).
\<close>

theorem empty_format_omits_key:
  assumes "distinct (map fst ikm)" and "ikm = before @ (k, StrTemplate t) # after"
    and "shard_ranges_nonempty ikm"
    and "enrich_entity_with_index_keys before h entity g = Inr (e1, h1, g1)"
    and "str_format t (cells h1 e1) = Inr [] \<or> (\<exists>f. Field f \<in> set t \<and> cells h1 e1 f = None)"
  shows "\<exists>e' h' g'. enrich_entity_with_index_keys ikm h entity g = Inr (e', h', g') \<and>
                     cells h' e' k = cells h entity k"
proof -
  let ?a = "next_free h"
  let ?hc = "snd (deepcopy h entity)"
  from assms(4) have e1: "e1 = ?a" and before: "enrich_loop before ?a ?hc g = Inr (h1, g1)"
    by (simp_all add: enrich_entity_unfold)
  from enrich_entity_returns [OF assms(3)] obtain h' g'
    where run: "enrich_entity_with_index_keys ikm h entity g = Inr (?a, h', g')" by blast
  then have "enrich_loop ikm ?a ?hc g = Inr (h', g')" by (simp add: enrich_entity_unfold)
  with assms(2) before have tail: "enrich_loop ((k, StrTemplate t) # after) ?a h1 g1 = Inr (h', g')"
    by (simp add: enrich_loop_append)
  from format_template_empty [OF assms(5)] e1
  have "format_template t (cells h1 ?a) = Inr EmptyValue" by simp
  with tail have after: "enrich_loop after ?a h1 g1 = Inr (h', g')" by simp
  from assms(1,2) have k_after: "k \<notin> fst ` set after" and k_before: "k \<notin> fst ` set before"
    by auto
  have "cells h' ?a k = cells h1 ?a k" by (rule enrich_loop_other_keys [OF after k_after])
  also have "\<dots> = cells ?hc ?a k" by (rule enrich_loop_other_keys [OF before k_before])
  also have "\<dots> = cells h entity k" by (simp add: deepcopy_cells_new)
  finally show ?thesis using run by blast
qed

theorem empty_format_omits_key_witness:
  "distinct (map fst [(''s_id'', ShardIdTemplate [0, 1, 2]), (''gsi'', StrTemplate [Field ''brand''])]) \<and>
   [(''s_id'', ShardIdTemplate [0, 1, 2]), (''gsi'', StrTemplate [Field ''brand''])] =
     [(''s_id'', ShardIdTemplate [0, 1, 2])] @ (''gsi'', StrTemplate [Field ''brand'']) # [] \<and>
   shard_ranges_nonempty [(''s_id'', ShardIdTemplate [0, 1, 2]), (''gsi'', StrTemplate [Field ''brand''])] \<and>
   enrich_entity_with_index_keys [(''s_id'', ShardIdTemplate [0, 1, 2])]
     \<lparr>cells = (\<lambda>a. Map.empty)(0 := [''brand'' \<mapsto> VStr '''']), next_free = 1\<rparr> 0 (\<lambda>n. 1) =
     Inr (1, \<lparr>cells = (\<lambda>a. Map.empty)(0 := [''brand'' \<mapsto> VStr ''''],
                                          1 := [''brand'' \<mapsto> VStr '''', ''s_id'' \<mapsto> VStr ''1'']),
              next_free = 2\<rparr>, \<lambda>n. 1) \<and>
   (str_format [Field ''brand'']
      (cells \<lparr>cells = (\<lambda>a. Map.empty)(0 := [''brand'' \<mapsto> VStr ''''],
                                          1 := [''brand'' \<mapsto> VStr '''', ''s_id'' \<mapsto> VStr ''1'']),
              next_free = 2\<rparr> 1) = Inr [] \<or>
    (\<exists>f. Field f \<in> set [Field ''brand''] \<and>
       cells \<lparr>cells = (\<lambda>a. Map.empty)(0 := [''brand'' \<mapsto> VStr ''''],
                                          1 := [''brand'' \<mapsto> VStr '''', ''s_id'' \<mapsto> VStr ''1'']),
              next_free = 2\<rparr> 1 f = None)) \<and>
   (\<exists>e' h' g'.
      enrich_entity_with_index_keys
        [(''s_id'', ShardIdTemplate [0, 1, 2]), (''gsi'', StrTemplate [Field ''brand''])]
        \<lparr>cells = (\<lambda>a. Map.empty)(0 := [''brand'' \<mapsto> VStr '''']), next_free = 1\<rparr> 0 (\<lambda>n. 1) =
        Inr (e', h', g') \<and>
      cells h' e' ''gsi'' =
        cells \<lparr>cells = (\<lambda>a. Map.empty)(0 := [''brand'' \<mapsto> VStr '''']), next_free = 1\<rparr> 0 ''gsi'')"
proof -
  let ?ikm = "[(''s_id'', ShardIdTemplate [0, 1, 2]), (''gsi'', StrTemplate [Field ''brand''])]"
  let ?h = "\<lparr>cells = (\<lambda>a. Map.empty)(0 := [''brand'' \<mapsto> VStr '''']), next_free = 1\<rparr>"
  let ?h1 = "\<lparr>cells = (\<lambda>a. Map.empty)(0 := [''brand'' \<mapsto> VStr ''''],
                                          1 := [''brand'' \<mapsto> VStr '''', ''s_id'' \<mapsto> VStr ''1'']),
              next_free = 2\<rparr>"
  have 1: "distinct (map fst ?ikm)" by simp
  have 2: "?ikm = [(''s_id'', ShardIdTemplate [0, 1, 2])] @ (''gsi'', StrTemplate [Field ''brand'']) # []"
    by simp
  have 3: "shard_ranges_nonempty ?ikm" by (simp add: shard_ranges_nonempty_def)
  have 4: "enrich_entity_with_index_keys [(''s_id'', ShardIdTemplate [0, 1, 2])] ?h 0 (\<lambda>n. 1) =
             Inr (1, ?h1, \<lambda>n. 1)"
    by (simp add: enrich_entity_with_index_keys_def deepcopy_def random_shard_id_def
        random_choice_def setitem_def str_int_def str_nat.simps)
  have h5: "str_format [Field ''brand''] (cells ?h1 1) = Inr [] \<or>
            (\<exists>f. Field f \<in> set [Field ''brand''] \<and> cells ?h1 1 f = None)"
    by simp
  from 1 2 3 4 h5 empty_format_omits_key [OF 1 2 3 4 h5] show ?thesis
    by (intro conjI)
qed

section \<open>Properties of the continuation token\<close>

lemmas token_eval =
  decompress_exclusive_start_key_def compress_last_evaluated_keys_def
  collect_last_evaluated_keys_def last_evaluated_key_of_def any_values_def table_codec_def

lemmas request_eval =
  kwargs_mapping_of_def decode_supplied_token_def divide_limit_def limit_per_shard_def
  str_int_def str_nat.simps

lemmas barrier_eval =
  Barrier_def run_def threaded_shell_def wait_in_thread_def empty_result_def

lemmas merge_eval =
  merged_page_def sort_by_and_add_priority_def flatten_items_def

lemma map_of_fold_update:
  "map_of (fold (\<lambda>k m. AList.update k (f k) m) ks m0) k =
     (if k \<in> set ks then Some (f k) else map_of m0 k)"
  by (induction ks arbitrary: m0) (auto simp: update_conv')

lemma map_of_collect_last_evaluated_keys:
  "map_of (collect_last_evaluated_keys sids res) sid =
     (if sid \<in> set sids then Some (last_evaluated_key_of res sid) else None)"
  by (simp add: collect_last_evaluated_keys_def map_of_fold_update)

lemma decompress_compress:
  assumes "any_values (collect_last_evaluated_keys sids res)"
    and "codec_inverts c (collect_last_evaluated_keys sids res)"
  shows "decompress_exclusive_start_key c (compress_last_evaluated_keys c sids res) =
           Inr (collect_last_evaluated_keys sids res)"
  using assms
  by (simp add: decompress_exclusive_start_key_def compress_last_evaluated_keys_def codec_inverts_def)

text \<open>
  Claim C1. Let \<open>M\<close> be a cursor map whose keys are exactly the configured shard ids and
  whose cursors are those of the results, at least one of them non-empty. When the
  libraries' decoders invert their encoders on the bytes of this map, decoding the token
  that \<^verbatim>\<open>_compress_last_evaluated_keys\<close> produces returns a dictionary equal to \<open>M\<close>.
\<close>

theorem token_round_trip:
  assumes "fst ` set M = set sids"
    and "\<forall>sid\<in>set sids. map_of M sid = Some (last_evaluated_key_of res sid)"
    and "any_values (collect_last_evaluated_keys sids res)"
    and "codec_inverts c (collect_last_evaluated_keys sids res)"
  shows "\<exists>M'. decompress_exclusive_start_key c (compress_last_evaluated_keys c sids res) = Inr M' \<and>
              map_of M' = map_of M"
proof -
  let ?L = "collect_last_evaluated_keys sids res"
  have "map_of ?L sid = map_of M sid" for sid
  proof (cases "sid \<in> set sids")
    case True
    with assms(2) show ?thesis by (simp add: map_of_collect_last_evaluated_keys)
  next
    case False
    with assms(1) have "sid \<notin> fst ` set M" by simp
    then have "map_of M sid = None" by (simp add: map_of_eq_None_iff)
    with False show ?thesis by (simp add: map_of_collect_last_evaluated_keys)
  qed
  then have "map_of ?L = map_of M" by (rule ext)
  with decompress_compress [OF assms(3,4)] show ?thesis by blast
qed

theorem token_round_trip_witness:
  "fst ` set [(0, [(''articleType'', VStr ''a'')]), (1, [])] = set [0, 1 :: int] \<and>
   map_of [(0 :: int, [(''articleType'', VStr ''a'')]), (1, [])] 0 =
     Some (last_evaluated_key_of
             [(0, \<lparr>Items = Some [], LastEvaluatedKey = Some [(''articleType'', VStr ''a'')]\<rparr>),
              (1, \<lparr>Items = Some [], LastEvaluatedKey = None\<rparr>)] 0) \<and>
   map_of [(0 :: int, [(''articleType'', VStr ''a'')]), (1, [])] 1 =
     Some (last_evaluated_key_of
             [(0, \<lparr>Items = Some [], LastEvaluatedKey = Some [(''articleType'', VStr ''a'')]\<rparr>),
              (1, \<lparr>Items = Some [], LastEvaluatedKey = None\<rparr>)] 1) \<and>
   any_values (collect_last_evaluated_keys [0, 1]
                [(0, \<lparr>Items = Some [], LastEvaluatedKey = Some [(''articleType'', VStr ''a'')]\<rparr>),
                 (1, \<lparr>Items = Some [], LastEvaluatedKey = None\<rparr>)]) \<and>
   codec_inverts (table_codec [([(0, [(''articleType'', VStr ''a'')]), (1, [])], ''m'')])
     (collect_last_evaluated_keys [0, 1]
                [(0, \<lparr>Items = Some [], LastEvaluatedKey = Some [(''articleType'', VStr ''a'')]\<rparr>),
                 (1, \<lparr>Items = Some [], LastEvaluatedKey = None\<rparr>)]) \<and>
   (\<exists>M'. decompress_exclusive_start_key
            (table_codec [([(0, [(''articleType'', VStr ''a'')]), (1, [])], ''m'')])
            (compress_last_evaluated_keys
               (table_codec [([(0, [(''articleType'', VStr ''a'')]), (1, [])], ''m'')]) [0, 1]
               [(0, \<lparr>Items = Some [], LastEvaluatedKey = Some [(''articleType'', VStr ''a'')]\<rparr>),
                (1, \<lparr>Items = Some [], LastEvaluatedKey = None\<rparr>)]) = Inr M' \<and>
          map_of M' = map_of [(0, [(''articleType'', VStr ''a'')]), (1, [])])"
proof -
  let ?M = "[(0 :: int, [(''articleType'', VStr ''a'')]), (1, [])]"
  let ?res = "[(0 :: int, \<lparr>Items = Some [], LastEvaluatedKey = Some [(''articleType'', VStr ''a'')]\<rparr>),
               (1, \<lparr>Items = Some [], LastEvaluatedKey = None\<rparr>)]"
  let ?c = "table_codec [(?M, ''m'')]"
  have 1: "fst ` set ?M = set [0, 1 :: int]" by simp
  have 2: "\<forall>sid\<in>set [0, 1]. map_of ?M sid = Some (last_evaluated_key_of ?res sid)"
    by (simp add: last_evaluated_key_of_def)
  have 3: "any_values (collect_last_evaluated_keys [0, 1] ?res)"
    by (simp add: token_eval)
  have 4: "codec_inverts ?c (collect_last_evaluated_keys [0, 1] ?res)"
    by (simp add: codec_inverts_def token_eval)
  have 5: "map_of ?M 0 = Some (last_evaluated_key_of ?res 0)"
    and 6: "map_of ?M 1 = Some (last_evaluated_key_of ?res 1)"
    by (simp_all add: last_evaluated_key_of_def)
  from 1 5 6 3 4 token_round_trip [OF 1 2 3 4] show ?thesis by (intro conjI)
qed

section \<open>Properties of the barrier\<close>

lemma set_update_cases:
  "p \<in> set (AList.update k v al) \<Longrightarrow> p = (k, v) \<or> p \<in> set al"
  by (induction al) (auto split: if_splits)

lemma threaded_shell_results:
  "results (threaded_shell q False u kw b) =
     AList.update u (case q kw of Returns r \<Rightarrow> r | Raises e \<Rightarrow> empty_result | Pending \<Rightarrow> empty_result)
       (results b)"
  by (cases "q kw") (simp_all add: threaded_shell_def wait_in_thread_def)

lemma threaded_shell_errors:
  "errors (threaded_shell q False u kw b) =
     (case q kw of Raises e \<Rightarrow> AList.update u e (errors b) | Returns r \<Rightarrow> errors b | Pending \<Rightarrow> errors b)"
  by (cases "q kw") (simp_all add: threaded_shell_def wait_in_thread_def)

lemma fold_threaded_shell_results:
  "distinct (map fst km) \<Longrightarrow>
   map_of (results (fold (\<lambda>(u, kw). threaded_shell q False u kw) km b)) sid =
     (case map_of km sid of
        None \<Rightarrow> map_of (results b) sid
      | Some kw \<Rightarrow> Some (case q kw of Returns r \<Rightarrow> r | Raises e \<Rightarrow> empty_result | Pending \<Rightarrow> empty_result))"
proof (induction km arbitrary: b)
  case Nil
  then show ?case by simp
next
  case (Cons p km)
  obtain u kw where p: "p = (u, kw)" by (cases p)
  from Cons.prems p have d: "distinct (map fst km)" and u: "map_of km u = None"
    by (auto simp: map_of_eq_None_iff)
  show ?case
    using u by (simp add: p Cons.IH [OF d] threaded_shell_results update_conv' split: option.splits)
qed

lemma map_of_threaded_shell_errors:
  "map_of (errors (threaded_shell q False u kw b)) sid =
     (if sid = u then (case q kw of Raises e \<Rightarrow> Some e | Returns r \<Rightarrow> map_of (errors b) sid
                                  | Pending \<Rightarrow> map_of (errors b) sid)
      else map_of (errors b) sid)"
  by (cases "q kw") (simp_all add: threaded_shell_errors update_conv')

lemma fold_threaded_shell_errors:
  "distinct (map fst km) \<Longrightarrow>
   map_of (errors (fold (\<lambda>(u, kw). threaded_shell q False u kw) km b)) sid =
     (case map_of km sid of
        None \<Rightarrow> map_of (errors b) sid
      | Some kw \<Rightarrow> (case q kw of Raises e \<Rightarrow> Some e | Returns r \<Rightarrow> map_of (errors b) sid
                                 | Pending \<Rightarrow> map_of (errors b) sid))"
proof (induction km arbitrary: b)
  case Nil
  then show ?case by simp
next
  case (Cons p km)
  obtain u kw where p: "p = (u, kw)" by (cases p)
  from Cons.prems p have d: "distinct (map fst km)" and u: "map_of km u = None"
    by (auto simp: map_of_eq_None_iff)
  show ?case
  proof (cases "sid = u")
    case True
    with u have "map_of km sid = None" by simp
    then show ?thesis
      by (simp add: p True [symmetric] Cons.IH [OF d] map_of_threaded_shell_errors)
  next
    case False
    then show ?thesis
      by (simp add: p Cons.IH [OF d] map_of_threaded_shell_errors
          split: option.splits outcome.splits)
  qed
qed

lemma fold_threaded_shell_origin:
  assumes "p \<in> set (results (fold (\<lambda>(u, kw). threaded_shell q False u kw) km b))"
  shows "p \<in> set (results b) \<or> snd p = empty_result \<or> (\<exists>kw\<in>snd ` set km. q kw = Returns (snd p))"
  using assms
proof (induction km arbitrary: b)
  case Nil
  then show ?case by simp
next
  case (Cons x km)
  obtain u kw where x: "x = (u, kw)" by (cases x)
  from Cons.prems x have "p \<in> set (results (fold (\<lambda>(u, kw). threaded_shell q False u kw) km
                                (threaded_shell q False u kw b)))" by simp
  from Cons.IH [OF this] show ?case
  proof (elim disjE)
    assume "p \<in> set (results (threaded_shell q False u kw b))"
    then have "p = (u, case q kw of Returns r \<Rightarrow> r | Raises e \<Rightarrow> empty_result | Pending \<Rightarrow> empty_result)
               \<or> p \<in> set (results b)"
      by (simp add: threaded_shell_results set_update_cases)
    then show ?thesis using x by (cases "q kw") auto
  next
    assume "snd p = empty_result"
    then show ?thesis by simp
  next
    assume "\<exists>kw\<in>snd ` set km. q kw = Returns (snd p)"
    then show ?thesis by auto
  qed
qed

lemma run_all_checked_in:
  assumes "\<not> list_ex (\<lambda>(u, kw). is_pending (q kw)) km"
  shows "run q km b =
           Inr (results (fold (\<lambda>(u, kw). threaded_shell q False u kw) km b),
                errors (fold (\<lambda>(u, kw). threaded_shell q False u kw) km b))"
  using assms by (simp add: run_def Let_def)

lemma run_pending:
  assumes "list_ex (\<lambda>(u, kw). is_pending (q kw)) km"
  shows "run q km b = Inl BrokenBarrierError"
  using assms by (simp add: run_def Let_def)

lemma run_returns_iff:
  "(\<exists>res errs. run q km b = Inr (res, errs)) \<longleftrightarrow> \<not> list_ex (\<lambda>(u, kw). is_pending (q kw)) km"
  by (auto simp: run_def Let_def)

lemma threaded_shell_cong:
  "q kw = q' kw \<Longrightarrow> threaded_shell q br u kw b = threaded_shell q' br u kw b"
  by (simp add: threaded_shell_def)

lemma run_depends_on_issued_requests:
  assumes "\<forall>kw\<in>snd ` set km. q kw = q' kw"
  shows "run q km b = run q' km b"
proof -
  from assms have pend: "list_ex (\<lambda>(u, kw). is_pending (q kw)) km =
                         list_ex (\<lambda>(u, kw). is_pending (q' kw)) km"
    by (induction km) auto
  have "fold (\<lambda>(u, kw). threaded_shell q br u kw) km b =
        fold (\<lambda>(u, kw). threaded_shell q' br u kw) km b" for br
    using assms
  proof (induction km arbitrary: b)
    case Nil
    then show ?case by simp
  next
    case (Cons x km)
    obtain u kw where x: "x = (u, kw)" by (cases x)
    from Cons.prems x have "q kw = q' kw" by simp
    then have "threaded_shell q br u kw b = threaded_shell q' br u kw b"
      by (rule threaded_shell_cong)
    moreover from Cons.prems have "\<forall>kw\<in>snd ` set km. q kw = q' kw" by simp
    ultimately show ?case using Cons.IH x by simp
  qed
  with pend show ?thesis by (simp add: run_def)
qed

lemma barrier_contains_exceptions:
  assumes "distinct (map fst km)"
    and "\<not> list_ex (\<lambda>(u, kw). is_pending (q kw)) km"
    and "map_of km u = Some kw"
  shows "\<exists>res errs. run q km \<lparr>results = [], errors = []\<rparr> = Inr (res, errs) \<and>
           (case q kw of
              Returns r \<Rightarrow> map_of res u = Some r \<and> map_of errs u = None
            | Raises exc \<Rightarrow> map_of res u = Some empty_result \<and> map_of errs u = Some exc
            | Pending \<Rightarrow> False)"
proof -
  let ?b0 = "\<lparr>results = [], errors = []\<rparr>"
  let ?bf = "fold (\<lambda>(u, kw). threaded_shell q False u kw) km ?b0"
  have run: "run q km ?b0 = Inr (results ?bf, errors ?bf)"
    by (rule run_all_checked_in [OF assms(2)])
  from assms(3) have "(u, kw) \<in> set km" by (rule map_of_SomeD)
  with assms(2) have np: "\<not> is_pending (q kw)" by (auto simp: list_ex_iff)
  have "case q kw of
          Returns r \<Rightarrow> map_of (results ?bf) u = Some r \<and> map_of (errors ?bf) u = None
        | Raises exc \<Rightarrow> map_of (results ?bf) u = Some empty_result \<and> map_of (errors ?bf) u = Some exc
        | Pending \<Rightarrow> False"
    using np assms(3)
    by (cases "q kw")
       (simp_all add: fold_threaded_shell_results [OF assms(1)] fold_threaded_shell_errors [OF assms(1)])
  with run show ?thesis by blast
qed

text \<open>
  Claim C4. An exception of one unit is recorded under its id and the other units run on;
  but \<^verbatim>\<open>run\<close> does not return the pair when the rendezvous times out. With one unit
  returned and one still running at the timeout, \<^verbatim>\<open>BrokenBarrierError\<close> leaves \<^verbatim>\<open>run\<close>.
\<close>

theorem barrier_timeout_raises:
  "run (\<lambda>kw. if KeyConditionExpression kw = Eq ''s_id'' (VStr ''1'') then Pending
              else Returns \<lparr>Items = Some [], LastEvaluatedKey = None\<rparr>)
     [(0, \<lparr>IndexName = ''idx'', KeyConditionExpression = Eq ''s_id'' (VStr ''0''),
           kw_ExclusiveStartKey = None, kw_Limit = None, kw_extra = []\<rparr>),
      (1, \<lparr>IndexName = ''idx'', KeyConditionExpression = Eq ''s_id'' (VStr ''1''),
           kw_ExclusiveStartKey = None, kw_Limit = None, kw_extra = []\<rparr>)]
     \<lparr>results = [], errors = []\<rparr> = Inl BrokenBarrierError"
  by (simp add: run_def)

section \<open>Properties of the fan-out query\<close>

lemma build_skips_exhausted:
  assumes "map_of keys sid = Some []" and "sid \<notin> fst ` set km0"
    and "build_kwargs_mapping idx sk (Some keys) limit ex sids start km0 = Inr km"
  shows "sid \<notin> fst ` set km"
  using assms(2,3)
proof (induction sids arbitrary: start km0)
  case Nil
  then show ?case by simp
next
  case (Cons s sids)
  show ?case
  proof (cases "map_of keys s")
    case None
    with Cons.prems show ?thesis by simp
  next
    case (Some k)
    show ?thesis
    proof (cases "k = []")
      case True
      with Some Cons.prems Cons.IH [of km0 start] show ?thesis by simp
    next
      case False
      with Some assms(1) have neq: "s \<noteq> sid" by auto
      let ?kw = "\<lparr>IndexName = idx,
                  KeyConditionExpression =
                    (case sk of None \<Rightarrow> Eq ''s_id'' (VStr (str_int s))
                     | Some c \<Rightarrow> And (Eq ''s_id'' (VStr (str_int s))) c),
                  kw_ExclusiveStartKey = Some k, kw_Limit = limit, kw_extra = ex\<rparr>"
      from neq Cons.prems(1) have fresh: "sid \<notin> fst ` set (AList.update s ?kw km0)"
        by (simp add: dom_update)
      from Cons.prems(2) Some False
      have "build_kwargs_mapping idx sk (Some keys) limit ex sids (Some k) (AList.update s ?kw km0) = Inr km"
        by (simp add: Let_def)
      from Cons.IH [OF fresh this] show ?thesis .
    qed
  qed
qed

lemma build_all_exhausted:
  assumes "\<forall>s\<in>set sids. map_of keys s = Some []"
  shows "build_kwargs_mapping idx sk (Some keys) limit ex sids start km0 = Inr km0"
  using assms by (induction sids) simp_all

lemma build_missing_shard:
  assumes "s \<in> set sids" and "map_of keys s = None"
  shows "build_kwargs_mapping idx sk (Some keys) limit ex sids start km0 = Inl KeyError"
  using assms
proof (induction sids arbitrary: start km0)
  case Nil
  then show ?case by simp
next
  case (Cons x sids)
  show ?case
  proof (cases "map_of keys x")
    case None
    then show ?thesis by simp
  next
    case (Some k)
    with Cons.prems have "s \<in> set sids" by auto
    from Cons.IH [OF this Cons.prems(2)] Some show ?thesis by (simp add: Let_def)
  qed
qed

lemma build_distinct:
  assumes "distinct (map fst km0)"
    and "build_kwargs_mapping idx sk keys limit ex sids start km0 = Inr km"
  shows "distinct (map fst km)"
  using assms
proof (induction sids arbitrary: start km0)
  case Nil
  then show ?case by simp
next
  case (Cons s sids)
  show ?case
  proof (cases keys)
    case None
    with Cons.prems(2) Cons.IH [OF distinct_update [OF Cons.prems(1)]] show ?thesis
      by (simp add: Let_def)
  next
    case (Some ks)
    with Cons.prems(2) Cons.IH [OF distinct_update [OF Cons.prems(1)]] Cons.IH [OF Cons.prems(1)]
    show ?thesis
      by (auto simp: Let_def split: option.splits if_splits)
  qed
qed

lemma build_keys_configured:
  assumes "build_kwargs_mapping idx sk keys limit ex sids start km0 = Inr km"
  shows "fst ` set km \<subseteq> fst ` set km0 \<union> set sids"
  using assms
proof (induction sids arbitrary: start km0)
  case Nil
  then show ?case by simp
next
  case (Cons s sids)
  show ?case
  proof (cases keys)
    case None
    with Cons.prems obtain kw where
      "build_kwargs_mapping idx sk keys limit ex sids start (AList.update s kw km0) = Inr km"
      by (simp add: Let_def)
    from Cons.IH [OF this] show ?thesis by (auto simp: dom_update)
  next
    case (Some ks)
    with Cons.prems obtain k where k: "map_of ks s = Some k"
      by (cases "map_of ks s") (auto simp: Let_def)
    show ?thesis
    proof (cases "k = []")
      case True
      with Some k Cons.prems have "build_kwargs_mapping idx sk keys limit ex sids start km0 = Inr km"
        by simp
      from Cons.IH [OF this] show ?thesis by auto
    next
      case False
      with Some k Cons.prems obtain kw where
        "build_kwargs_mapping idx sk keys limit ex sids (Some k) (AList.update s kw km0) = Inr km"
        by (simp add: Let_def)
      from Cons.IH [OF this] show ?thesis by (auto simp: dom_update)
    qed
  qed
qed

lemma distinct_collect_last_evaluated_keys:
  "distinct (map fst (collect_last_evaluated_keys sids res))"
proof -
  have "distinct (map fst m0) \<Longrightarrow>
        distinct (map fst (fold (\<lambda>shard_id m. AList.update shard_id (f shard_id) m) sids m0))"
    for m0 :: cursor_map and f
    by (induction sids arbitrary: m0) (simp_all add: distinct_update)
  then show ?thesis by (simp add: collect_last_evaluated_keys_def)
qed

lemma any_values_collect:
  "any_values (collect_last_evaluated_keys sids res) \<longleftrightarrow>
     (\<exists>s\<in>set sids. last_evaluated_key_of res s \<noteq> [])"
proof -
  let ?L = "collect_last_evaluated_keys sids res"
  have "any_values ?L \<longleftrightarrow> (\<exists>s k. (s, k) \<in> set ?L \<and> k \<noteq> [])"
    by (auto simp: any_values_def list_ex_iff)
  also have "\<dots> \<longleftrightarrow> (\<exists>s k. map_of ?L s = Some k \<and> k \<noteq> [])"
    using distinct_collect_last_evaluated_keys [of sids res] by simp
  also have "\<dots> \<longleftrightarrow> (\<exists>s\<in>set sids. last_evaluated_key_of res s \<noteq> [])"
    by (auto simp: map_of_collect_last_evaluated_keys)
  finally show ?thesis .
qed

lemma last_evaluated_key_of_Nil: "last_evaluated_key_of [] s = []"
  by (simp add: last_evaluated_key_of_def)

lemma merged_page_Nil:
  "merged_page self idx [] = Inr \<lparr>page_Items = [], page_LastEvaluatedKey = None\<rparr>"
proof -
  have "sort_by_and_add_priority (sort_key_mapping self) [] idx = Inr []"
    by (simp add: sort_by_and_add_priority_def split: option.splits)
  moreover have "compress_last_evaluated_keys (token_codec self) (shard_ids self) [] = []"
    by (simp add: compress_last_evaluated_keys_def any_values_collect last_evaluated_key_of_Nil)
  ultimately show ?thesis
    by (simp add: merged_page_def flatten_items_def)
qed

lemma run_Nil: "run q [] b = Inr (results b, errors b)"
  by (simp add: run_def)

lemma divide_limit_returns: "n \<noteq> 0 \<Longrightarrow> \<exists>l. divide_limit limit n = Inr l"
  by (cases limit) (simp_all add: divide_limit_def limit_per_shard_def)

lemma decode_supplied:
  "token \<noteq> [] \<Longrightarrow>
   decode_supplied_token c (Some token) =
     (case decompress_exclusive_start_key c token of Inl e \<Rightarrow> Inl e | Inr keys \<Rightarrow> Inr (Some keys))"
  by (simp add: decode_supplied_token_def)

text \<open>
  Claim C7. With a token that decodes to \<open>keys\<close>: a shard whose cursor in \<open>keys\<close> is empty
  has no entry in \<^verbatim>\<open>kwargs_mapping\<close>, so the barrier starts no unit for it; and when every
  configured shard's cursor is empty, \<^verbatim>\<open>kwargs_mapping\<close> is empty and the call returns no
  items and no continuation token.
\<close>

theorem exhausted_shards_not_queried:
  assumes "ExclusiveStartKey attrs = Some token" and "token \<noteq> []"
    and "decompress_exclusive_start_key (token_codec self) token = Inr keys"
  shows "(map_of keys sid = Some [] \<longrightarrow>
            (\<forall>km. kwargs_mapping_of self idx sk attrs = Inr km \<longrightarrow> sid \<notin> fst ` set km)) \<and>
         (shard_ids self \<noteq> [] \<and> (\<forall>s\<in>set (shard_ids self). map_of keys s = Some []) \<longrightarrow>
            kwargs_mapping_of self idx sk attrs = Inr [] \<and>
            query_shards self idx sk attrs = Inr \<lparr>page_Items = [], page_LastEvaluatedKey = None\<rparr>)"
proof (intro conjI impI allI)
  fix km
  assume empty: "map_of keys sid = Some []"
    and km: "kwargs_mapping_of self idx sk attrs = Inr km"
  from km assms obtain limit where
    "build_kwargs_mapping idx sk (Some keys) limit (extra attrs) (shard_ids self) None [] = Inr km"
    by (auto simp: kwargs_mapping_of_def decode_supplied split: sum.splits)
  from build_skips_exhausted [OF empty _ this] show "sid \<notin> fst ` set km" by simp
next
  assume all: "shard_ids self \<noteq> [] \<and> (\<forall>s\<in>set (shard_ids self). map_of keys s = Some [])"
  then have "length (shard_ids self) \<noteq> 0" by simp
  from divide_limit_returns [OF this] obtain limit
    where limit: "divide_limit (Limit attrs) (length (shard_ids self)) = Inr limit" by blast
  from all have "build_kwargs_mapping idx sk (Some keys) limit (extra attrs) (shard_ids self) None [] = Inr []"
    by (simp add: build_all_exhausted)
  with assms limit show none: "kwargs_mapping_of self idx sk attrs = Inr []"
    by (simp add: kwargs_mapping_of_def decode_supplied)
  then show "query_shards self idx sk attrs = Inr \<lparr>page_Items = [], page_LastEvaluatedKey = None\<rparr>"
    by (simp add: query_shards_def Barrier_def run_Nil merged_page_Nil)
qed

theorem exhausted_shards_not_queried_witness:
  "ExclusiveStartKey \<lparr>ExclusiveStartKey = Some ''zm'', Limit = Some 10, extra = []\<rparr> = Some ''zm'' \<and>
   ''zm'' \<noteq> [] \<and>
   decompress_exclusive_start_key
     (token_codec \<lparr>shard_ids = [0, 1],
                   query_items = (\<lambda>kw. Returns \<lparr>Items = Some [], LastEvaluatedKey = None\<rparr>),
                   token_codec = table_codec [([(0, []), (1, [])], ''m'')],
                   sort_key_mapping = Map.empty\<rparr>) ''zm'' = Inr [(0, []), (1, [])] \<and>
   map_of [(0 :: int, [] :: cursor), (1, [])] 0 = Some [] \<and>
   map_of [(0 :: int, [] :: cursor), (1, [])] 1 = Some [] \<and>
   shard_ids \<lparr>shard_ids = [0, 1],
              query_items = (\<lambda>kw. Returns \<lparr>Items = Some [], LastEvaluatedKey = None\<rparr>),
              token_codec = table_codec [([(0, []), (1, [])], ''m'')],
              sort_key_mapping = Map.empty\<rparr> \<noteq> [] \<and>
   kwargs_mapping_of
     \<lparr>shard_ids = [0, 1],
      query_items = (\<lambda>kw. Returns \<lparr>Items = Some [], LastEvaluatedKey = None\<rparr>),
      token_codec = table_codec [([(0, []), (1, [])], ''m'')],
      sort_key_mapping = Map.empty\<rparr> ''idx'' None
     \<lparr>ExclusiveStartKey = Some ''zm'', Limit = Some 10, extra = []\<rparr> = Inr [] \<and>
   query_shards
     \<lparr>shard_ids = [0, 1],
      query_items = (\<lambda>kw. Returns \<lparr>Items = Some [], LastEvaluatedKey = None\<rparr>),
      token_codec = table_codec [([(0, []), (1, [])], ''m'')],
      sort_key_mapping = Map.empty\<rparr> ''idx'' None
     \<lparr>ExclusiveStartKey = Some ''zm'', Limit = Some 10, extra = []\<rparr> =
     Inr \<lparr>page_Items = [], page_LastEvaluatedKey = None\<rparr> \<and>
   decompress_exclusive_start_key
     (token_codec \<lparr>shard_ids = [0, 1],
                   query_items = (\<lambda>kw. Returns \<lparr>Items = Some [], LastEvaluatedKey = None\<rparr>),
                   token_codec = table_codec [([(0, []), (1, [(''articleType'', VStr ''b'')])], ''n'')],
                   sort_key_mapping = Map.empty\<rparr>) ''zn'' =
     Inr [(0, []), (1, [(''articleType'', VStr ''b'')])] \<and>
   kwargs_mapping_of
     \<lparr>shard_ids = [0, 1],
      query_items = (\<lambda>kw. Returns \<lparr>Items = Some [], LastEvaluatedKey = None\<rparr>),
      token_codec = table_codec [([(0, []), (1, [(''articleType'', VStr ''b'')])], ''n'')],
      sort_key_mapping = Map.empty\<rparr> ''idx'' None
     \<lparr>ExclusiveStartKey = Some ''zn'', Limit = Some 10, extra = []\<rparr> =
     Inr [(1, \<lparr>IndexName = ''idx'', KeyConditionExpression = Eq ''s_id'' (VStr ''1''),
               kw_ExclusiveStartKey = Some [(''articleType'', VStr ''b'')], kw_Limit = Some 5,
               kw_extra = []\<rparr>)] \<and>
   (0 :: int) \<notin> fst ` set
     [(1 :: int, \<lparr>IndexName = ''idx'', KeyConditionExpression = Eq ''s_id'' (VStr ''1''),
               kw_ExclusiveStartKey = Some [(''articleType'', VStr ''b'')], kw_Limit = Some 5,
               kw_extra = []\<rparr>)]"
proof -
  let ?keys = "[(0 :: int, [] :: cursor), (1, [])]"
  let ?q = "\<lambda>kw :: query_kwargs. Returns \<lparr>Items = Some [], LastEvaluatedKey = None\<rparr>"
  let ?self = "\<lparr>shard_ids = [0, 1], query_items = ?q,
      token_codec = table_codec [(?keys, ''m'')], sort_key_mapping = Map.empty\<rparr>"
  let ?attrs = "\<lparr>ExclusiveStartKey = Some ''zm'', Limit = Some 10, extra = []\<rparr>"
  let ?keys2 = "[(0 :: int, [] :: cursor), (1, [(''articleType'', VStr ''b'')])]"
  let ?self2 = "\<lparr>shard_ids = [0, 1], query_items = ?q,
      token_codec = table_codec [(?keys2, ''n'')], sort_key_mapping = Map.empty\<rparr>"
  let ?attrs2 = "\<lparr>ExclusiveStartKey = Some ''zn'', Limit = Some 10, extra = []\<rparr>"
  let ?kw1 = "\<lparr>IndexName = ''idx'', KeyConditionExpression = Eq ''s_id'' (VStr ''1''),
               kw_ExclusiveStartKey = Some [(''articleType'', VStr ''b'')], kw_Limit = Some 5,
               kw_extra = []\<rparr>"
  have 1: "ExclusiveStartKey ?attrs = Some ''zm''" by simp
  have 2: "''zm'' \<noteq> []" by simp
  have 3: "decompress_exclusive_start_key (token_codec ?self) ''zm'' = Inr ?keys"
    by (simp add: token_eval)
  have 4: "map_of ?keys 0 = Some []" by simp
  have 5: "shard_ids ?self \<noteq> []" by simp
  have 6: "map_of ?keys 1 = Some []" by simp
  have 7: "shard_ids ?self \<noteq> [] \<and> (\<forall>s\<in>set (shard_ids ?self). map_of ?keys s = Some [])"
    by simp
  from exhausted_shards_not_queried [OF 1 2 3, of 0 "''idx''" None]
  have all: "kwargs_mapping_of ?self ''idx'' None ?attrs = Inr [] \<and>
        query_shards ?self ''idx'' None ?attrs = Inr \<lparr>page_Items = [], page_LastEvaluatedKey = None\<rparr>"
    using 7 by blast
  have 8: "ExclusiveStartKey ?attrs2 = Some ''zn''" by simp
  have 9: "''zn'' \<noteq> []" by simp
  have 10: "decompress_exclusive_start_key (token_codec ?self2) ''zn'' = Inr ?keys2"
    by (simp add: token_eval)
  have 11: "map_of ?keys2 0 = Some []" by simp
  have 12: "kwargs_mapping_of ?self2 ''idx'' None ?attrs2 = Inr [(1, ?kw1)]"
    by (simp add: request_eval 10 [simplified])
  from exhausted_shards_not_queried [OF 8 9 10, of 0 "''idx''" None] 11 12
  have one: "(0 :: int) \<notin> fst ` set [(1 :: int, ?kw1)]" by blast
  from 1 2 3 4 6 5 all 10 12 one show ?thesis by (intro conjI) blast+
qed

text \<open>
  Claim C5 as stated fails. A token encoded for the shard ids 0 and 1 decodes without error,
  and \<^verbatim>\<open>query_shards\<close> of a model configured with shard id 0 alone accepts it and returns
  a page.
\<close>

theorem malformed_token_counterexample:
  "compress_last_evaluated_keys
     (table_codec [([(0, [(''articleType'', VStr ''a'')]), (1, [(''articleType'', VStr ''b'')])], ''m'')])
     [0, 1]
     [(0, \<lparr>Items = Some [], LastEvaluatedKey = Some [(''articleType'', VStr ''a'')]\<rparr>),
      (1, \<lparr>Items = Some [], LastEvaluatedKey = Some [(''articleType'', VStr ''b'')]\<rparr>)] = ''zm'' \<and>
   decompress_exclusive_start_key
     (table_codec [([(0, [(''articleType'', VStr ''a'')]), (1, [(''articleType'', VStr ''b'')])], ''m'')])
     ''zm'' = Inr [(0, [(''articleType'', VStr ''a'')]), (1, [(''articleType'', VStr ''b'')])] \<and>
   query_shards
     \<lparr>shard_ids = [0],
      query_items = (\<lambda>kw. Returns \<lparr>Items = Some [], LastEvaluatedKey = None\<rparr>),
      token_codec =
        table_codec [([(0, [(''articleType'', VStr ''a'')]), (1, [(''articleType'', VStr ''b'')])], ''m'')],
      sort_key_mapping = Map.empty\<rparr> ''idx'' None
     \<lparr>ExclusiveStartKey = Some ''zm'', Limit = None, extra = []\<rparr> =
     Inr \<lparr>page_Items = [], page_LastEvaluatedKey = None\<rparr>"
proof -
  let ?M = "[(0 :: int, [(''articleType'', VStr ''a'')]), (1, [(''articleType'', VStr ''b'')])]"
  let ?c = "table_codec [(?M, ''m'')]"
  let ?self = "\<lparr>shard_ids = [0],
      query_items = (\<lambda>kw. Returns \<lparr>Items = Some [], LastEvaluatedKey = None\<rparr>),
      token_codec = ?c, sort_key_mapping = Map.empty\<rparr>"
  let ?attrs = "\<lparr>ExclusiveStartKey = Some ''zm'', Limit = None, extra = []\<rparr>"
  let ?kw = "\<lparr>IndexName = ''idx'', KeyConditionExpression = Eq ''s_id'' (VStr ''0''),
              kw_ExclusiveStartKey = Some [(''articleType'', VStr ''a'')], kw_Limit = None,
              kw_extra = []\<rparr>"
  let ?r = "\<lparr>Items = Some [], LastEvaluatedKey = None\<rparr>"
  have enc: "compress_last_evaluated_keys ?c [0, 1]
               [(0, \<lparr>Items = Some [], LastEvaluatedKey = Some [(''articleType'', VStr ''a'')]\<rparr>),
                (1, \<lparr>Items = Some [], LastEvaluatedKey = Some [(''articleType'', VStr ''b'')]\<rparr>)] = ''zm''"
    by (simp add: token_eval)
  have dec: "decompress_exclusive_start_key ?c ''zm'' = Inr ?M"
    by (simp add: token_eval)
  have km: "kwargs_mapping_of ?self ''idx'' None ?attrs = Inr [(0, ?kw)]"
    by (simp add: request_eval dec)
  have run: "run (\<lambda>kw. Returns ?r) [(0, ?kw)] \<lparr>results = [], errors = []\<rparr> = Inr ([(0, ?r)], [])"
    by (simp add: barrier_eval)
  have page: "merged_page ?self ''idx'' [(0, ?r)] = Inr \<lparr>page_Items = [], page_LastEvaluatedKey = None\<rparr>"
    by (simp add: merge_eval token_eval)
  have call: "query_shards ?self ''idx'' None ?attrs = Inr \<lparr>page_Items = [], page_LastEvaluatedKey = None\<rparr>"
    by (simp add: query_shards_def km Barrier_def run page)
  from enc dec call show ?thesis by (intro conjI)
qed

text \<open>
  Claim C5, as amended. A token that the libraries reject makes \<^verbatim>\<open>query_shards\<close> fail with
  the library's own exception, unchanged. A token that decodes to a map lacking a
  configured shard id makes it fail with \<^verbatim>\<open>KeyError\<close>.
\<close>

theorem token_errors_propagate:
  assumes "ExclusiveStartKey attrs = Some token" and "token \<noteq> []"
  shows "(decompress_exclusive_start_key (token_codec self) token = Inl e \<longrightarrow>
            query_shards self idx sk attrs = Inl e) \<and>
         (decompress_exclusive_start_key (token_codec self) token = Inr keys \<and>
          s \<in> set (shard_ids self) \<and> map_of keys s = None \<longrightarrow>
            query_shards self idx sk attrs = Inl KeyError)"
proof (intro conjI impI)
  assume "decompress_exclusive_start_key (token_codec self) token = Inl e"
  with assms show "query_shards self idx sk attrs = Inl e"
    by (simp add: query_shards_def kwargs_mapping_of_def decode_supplied)
next
  assume a: "decompress_exclusive_start_key (token_codec self) token = Inr keys \<and>
          s \<in> set (shard_ids self) \<and> map_of keys s = None"
  then have "length (shard_ids self) \<noteq> 0" by auto
  from divide_limit_returns [OF this] obtain limit
    where limit: "divide_limit (Limit attrs) (length (shard_ids self)) = Inr limit" by blast
  from a have "s \<in> set (shard_ids self)" and "map_of keys s = None" by simp_all
  then have "build_kwargs_mapping idx sk (Some keys) limit (extra attrs) (shard_ids self) None [] =
                 Inl KeyError"
    by (rule build_missing_shard)
  with assms a limit show "query_shards self idx sk attrs = Inl KeyError"
    by (simp add: query_shards_def kwargs_mapping_of_def decode_supplied)
qed

theorem token_errors_propagate_witness:
  "ExclusiveStartKey \<lparr>ExclusiveStartKey = Some ''x'', Limit = None, extra = []\<rparr> = Some ''x'' \<and>
   ''x'' \<noteq> [] \<and>
   decompress_exclusive_start_key
     (token_codec \<lparr>shard_ids = [0, 1],
                   query_items = (\<lambda>kw. Returns \<lparr>Items = Some [], LastEvaluatedKey = None\<rparr>),
                   token_codec = table_codec [([(0, [(''articleType'', VStr ''a'')])], ''m'')],
                   sort_key_mapping = Map.empty\<rparr>) ''x'' = Inl (LibraryError ''zlib'') \<and>
   query_shards
     \<lparr>shard_ids = [0, 1],
      query_items = (\<lambda>kw. Returns \<lparr>Items = Some [], LastEvaluatedKey = None\<rparr>),
      token_codec = table_codec [([(0, [(''articleType'', VStr ''a'')])], ''m'')],
      sort_key_mapping = Map.empty\<rparr> ''idx'' None
     \<lparr>ExclusiveStartKey = Some ''x'', Limit = None, extra = []\<rparr> = Inl (LibraryError ''zlib'') \<and>
   ExclusiveStartKey \<lparr>ExclusiveStartKey = Some ''zm'', Limit = None, extra = []\<rparr> = Some ''zm'' \<and>
   ''zm'' \<noteq> [] \<and>
   decompress_exclusive_start_key
     (token_codec \<lparr>shard_ids = [0, 1],
                   query_items = (\<lambda>kw. Returns \<lparr>Items = Some [], LastEvaluatedKey = None\<rparr>),
                   token_codec = table_codec [([(0, [(''articleType'', VStr ''a'')])], ''m'')],
                   sort_key_mapping = Map.empty\<rparr>) ''zm'' = Inr [(0, [(''articleType'', VStr ''a'')])] \<and>
   (1 :: int) \<in> set [0, 1] \<and>
   map_of [(0 :: int, [(''articleType'', VStr ''a'')])] 1 = None \<and>
   query_shards
     \<lparr>shard_ids = [0, 1],
      query_items = (\<lambda>kw. Returns \<lparr>Items = Some [], LastEvaluatedKey = None\<rparr>),
      token_codec = table_codec [([(0, [(''articleType'', VStr ''a'')])], ''m'')],
      sort_key_mapping = Map.empty\<rparr> ''idx'' None
     \<lparr>ExclusiveStartKey = Some ''zm'', Limit = None, extra = []\<rparr> = Inl KeyError"
proof -
  let ?M = "[(0 :: int, [(''articleType'', VStr ''a'')])]"
  let ?self = "\<lparr>shard_ids = [0, 1],
      query_items = (\<lambda>kw. Returns \<lparr>Items = Some [], LastEvaluatedKey = None\<rparr>),
      token_codec = table_codec [(?M, ''m'')], sort_key_mapping = Map.empty\<rparr>"
  let ?bad = "\<lparr>ExclusiveStartKey = Some ''x'', Limit = None, extra = []\<rparr>"
  let ?short = "\<lparr>ExclusiveStartKey = Some ''zm'', Limit = None, extra = []\<rparr>"
  have 1: "ExclusiveStartKey ?bad = Some ''x''" by simp
  have 2: "''x'' \<noteq> []" by simp
  have 3: "decompress_exclusive_start_key (token_codec ?self) ''x'' = Inl (LibraryError ''zlib'')"
    by (simp add: token_eval)
  have 4: "ExclusiveStartKey ?short = Some ''zm''" by simp
  have 5: "''zm'' \<noteq> []" by simp
  have 6: "decompress_exclusive_start_key (token_codec ?self) ''zm'' = Inr ?M"
    by (simp add: token_eval)
  have 7: "(1 :: int) \<in> set [0, 1]" by simp
  have 8: "map_of ?M 1 = None" by simp
  have 9: "(1 :: int) \<in> set (shard_ids ?self)" by simp
  from token_errors_propagate [OF 1 2, where self = ?self and e = "LibraryError ''zlib''"
      and idx = "''idx''" and sk = None] 3
  have a: "query_shards ?self ''idx'' None ?bad = Inl (LibraryError ''zlib'')" by blast
  from token_errors_propagate [OF 4 5, where self = ?self and keys = ?M and s = 1
      and idx = "''idx''" and sk = None] 6 9 8
  have b: "query_shards ?self ''idx'' None ?short = Inl KeyError" by blast
  from 1 2 3 a 4 5 6 7 8 b show ?thesis by (intro conjI)
qed

lemma build_from_kwargs_mapping_of:
  assumes "kwargs_mapping_of self idx sk attrs = Inr km"
  shows "\<exists>keys limit.
           build_kwargs_mapping idx sk keys limit (extra attrs) (shard_ids self) None [] = Inr km"
  using assms by (auto simp: kwargs_mapping_of_def split: sum.splits)

lemma kwargs_mapping_of_distinct:
  assumes "kwargs_mapping_of self idx sk attrs = Inr km"
  shows "distinct (map fst km)"
proof -
  from build_from_kwargs_mapping_of [OF assms] obtain keys limit where
    "build_kwargs_mapping idx sk keys limit (extra attrs) (shard_ids self) None [] = Inr km"
    by blast
  from build_distinct [OF _ this] show ?thesis by simp
qed

lemma kwargs_mapping_of_configured:
  assumes "kwargs_mapping_of self idx sk attrs = Inr km"
  shows "fst ` set km \<subseteq> set (shard_ids self)"
proof -
  from build_from_kwargs_mapping_of [OF assms] obtain keys limit where
    "build_kwargs_mapping idx sk keys limit (extra attrs) (shard_ids self) None [] = Inr km"
    by blast
  from build_keys_configured [OF this] show ?thesis by simp
qed

lemma sort_without_sort_key:
  "m idx = None \<Longrightarrow> sort_by_and_add_priority m items idx = Inr items"
  by (simp add: sort_by_and_add_priority_def)

lemma add_priority_returns:
  assumes "\<forall>item\<in>set items. \<exists>s. item sort_key_name = Some (VStr s)"
  shows "\<exists>items'. add_priority sort_key_name items = Inr items'"
  using assms
proof (induction items)
  case Nil
  then show ?case by simp
next
  case (Cons x items)
  from Cons.prems obtain s where x: "x sort_key_name = Some (VStr s)" by auto
  from Cons.prems have "\<forall>item\<in>set items. \<exists>s. item sort_key_name = Some (VStr s)" by simp
  from Cons.IH [OF this] obtain items' where "add_priority sort_key_name items = Inr items'"
    by blast
  with x show ?case by simp
qed

lemma sort_by_and_add_priority_returns:
  assumes "\<forall>name. m idx = Some name \<longrightarrow> (\<forall>item\<in>set items. \<exists>s. item name = Some (VStr s))"
  shows "\<exists>items'. sort_by_and_add_priority m items idx = Inr items'"
proof (cases "m idx")
  case None
  then show ?thesis by (simp add: sort_by_and_add_priority_def)
next
  case (Some name)
  with assms have "\<forall>item\<in>set items. \<exists>s. item name = Some (VStr s)" by simp
  from add_priority_returns [OF this] obtain added where "add_priority name items = Inr added"
    by blast
  with Some show ?thesis by (simp add: sort_by_and_add_priority_def)
qed

lemma merged_page_returns:
  assumes "sort_by_and_add_priority (sort_key_mapping self) (flatten_items res) idx = Inr items"
  shows "merged_page self idx res =
           Inr \<lparr>page_Items = items,
                page_LastEvaluatedKey =
                  (if compress_last_evaluated_keys (token_codec self) (shard_ids self) res \<noteq> []
                   then Some (compress_last_evaluated_keys (token_codec self) (shard_ids self) res)
                   else None)\<rparr>"
  using assms by (simp add: merged_page_def Let_def)

text \<open>
  Claim C2 as stated fails. Two shards are resumed from the cursors \<open>a\<close> and \<open>b\<close>; the store
  call of shard 0 raises and shard 1 returns an item with the further cursor \<open>c\<close>. The
  call succeeds, and the token it returns decodes to the empty cursor for shard 0: the
  prior cursor \<open>a\<close> is gone.
\<close>

theorem failed_shard_cursor_counterexample:
  "query_shards
     \<lparr>shard_ids = [0, 1],
      query_items =
        (\<lambda>kw. if KeyConditionExpression kw = Eq ''s_id'' (VStr ''0'') then Raises (StoreError ''boom'')
              else Returns \<lparr>Items = Some [[''articleType'' \<mapsto> VStr ''c'']],
                            LastEvaluatedKey = Some [(''articleType'', VStr ''c'')]\<rparr>),
      token_codec =
        table_codec
          [([(0, [(''articleType'', VStr ''a'')]), (1, [(''articleType'', VStr ''b'')])], ''in''),
           ([(0, []), (1, [(''articleType'', VStr ''c'')])], ''out'')],
      sort_key_mapping = Map.empty\<rparr> ''idx'' None
     \<lparr>ExclusiveStartKey = Some ''zin'', Limit = None, extra = []\<rparr> =
     Inr \<lparr>page_Items = [[''articleType'' \<mapsto> VStr ''c'']], page_LastEvaluatedKey = Some ''zout''\<rparr> \<and>
   decompress_exclusive_start_key
     (table_codec
        [([(0, [(''articleType'', VStr ''a'')]), (1, [(''articleType'', VStr ''b'')])], ''in''),
         ([(0, []), (1, [(''articleType'', VStr ''c'')])], ''out'')]) ''zin'' =
     Inr [(0, [(''articleType'', VStr ''a'')]), (1, [(''articleType'', VStr ''b'')])] \<and>
   decompress_exclusive_start_key
     (table_codec
        [([(0, [(''articleType'', VStr ''a'')]), (1, [(''articleType'', VStr ''b'')])], ''in''),
         ([(0, []), (1, [(''articleType'', VStr ''c'')])], ''out'')]) ''zout'' =
     Inr [(0, []), (1, [(''articleType'', VStr ''c'')])]"
proof -
  let ?Min = "[(0 :: int, [(''articleType'', VStr ''a'')]), (1, [(''articleType'', VStr ''b'')])]"
  let ?Mout = "[(0 :: int, []), (1, [(''articleType'', VStr ''c'')])]"
  let ?c = "table_codec [(?Min, ''in''), (?Mout, ''out'')]"
  let ?r1 = "\<lparr>Items = Some [[''articleType'' \<mapsto> VStr ''c'']],
              LastEvaluatedKey = Some [(''articleType'', VStr ''c'')]\<rparr>"
  let ?q = "\<lambda>kw. if KeyConditionExpression kw = Eq ''s_id'' (VStr ''0'') then Raises (StoreError ''boom'')
              else Returns ?r1"
  let ?self = "\<lparr>shard_ids = [0, 1], query_items = ?q, token_codec = ?c, sort_key_mapping = Map.empty\<rparr>"
  let ?attrs = "\<lparr>ExclusiveStartKey = Some ''zin'', Limit = None, extra = []\<rparr>"
  let ?kw0 = "\<lparr>IndexName = ''idx'', KeyConditionExpression = Eq ''s_id'' (VStr ''0''),
               kw_ExclusiveStartKey = Some [(''articleType'', VStr ''a'')], kw_Limit = None,
               kw_extra = []\<rparr>"
  let ?kw1 = "\<lparr>IndexName = ''idx'', KeyConditionExpression = Eq ''s_id'' (VStr ''1''),
               kw_ExclusiveStartKey = Some [(''articleType'', VStr ''b'')], kw_Limit = None,
               kw_extra = []\<rparr>"
  let ?res = "[(0 :: int, \<lparr>Items = None, LastEvaluatedKey = None\<rparr>), (1, ?r1)]"
  have dec_in: "decompress_exclusive_start_key ?c ''zin'' = Inr ?Min"
    by (simp add: token_eval)
  have dec_out: "decompress_exclusive_start_key ?c ''zout'' = Inr ?Mout"
    by (simp add: token_eval)
  have km: "kwargs_mapping_of ?self ''idx'' None ?attrs = Inr [(0, ?kw0), (1, ?kw1)]"
    by (simp add: request_eval dec_in)
  have run: "run ?q [(0, ?kw0), (1, ?kw1)] \<lparr>results = [], errors = []\<rparr> =
               Inr (?res, [(0, StoreError ''boom'')])"
    by (simp add: barrier_eval)
  have enc: "compress_last_evaluated_keys ?c [0, 1] ?res = ''zout''"
    by (simp add: token_eval)
  have page: "merged_page ?self ''idx'' ?res =
                Inr \<lparr>page_Items = [[''articleType'' \<mapsto> VStr ''c'']], page_LastEvaluatedKey = Some ''zout''\<rparr>"
    by (simp add: merge_eval enc)
  have call: "query_shards ?self ''idx'' None ?attrs =
                Inr \<lparr>page_Items = [[''articleType'' \<mapsto> VStr ''c'']], page_LastEvaluatedKey = Some ''zout''\<rparr>"
    by (simp add: query_shards_def km Barrier_def run page)
  from call dec_in dec_out show ?thesis by (intro conjI)
qed

text \<open>
  Claim C2, as amended. When the store call of one shard raises and every unit checks in,
  the barrier returns; the shard's result is the empty dictionary (no items), its
  exception is recorded under its id, and its entry in the next cursor map is the empty
  cursor: the shard is encoded as exhausted. The outcome of the call is the merge of
  these results. It is a page, with the token of that cursor map, whenever the index has
  no designated sort key or every merged item holds a string under it; an exception of
  the sort step is the outcome of the call otherwise.
\<close>

theorem failed_shard_recorded_exhausted:
  assumes "kwargs_mapping_of self idx sk attrs = Inr km"
    and "map_of km sid = Some kw" and "query_items self kw = Raises exc"
    and "\<not> list_ex (\<lambda>(u, kw). is_pending (query_items self kw)) km"
    and "length km < 99"
  shows "\<exists>res errs.
           run (query_items self) km \<lparr>results = [], errors = []\<rparr> = Inr (res, errs) \<and>
           map_of res sid = Some empty_result \<and>
           map_of errs sid = Some exc \<and>
           query_shards self idx sk attrs = merged_page self idx res \<and>
           map_of (collect_last_evaluated_keys (shard_ids self) res) sid = Some [] \<and>
           (sort_key_mapping self idx = None \<longrightarrow> (\<exists>p. query_shards self idx sk attrs = Inr p)) \<and>
           ((\<forall>name. sort_key_mapping self idx = Some name \<longrightarrow>
               (\<forall>item\<in>set (flatten_items res). \<exists>s. item name = Some (VStr s))) \<longrightarrow>
            (\<exists>items. query_shards self idx sk attrs =
               Inr \<lparr>page_Items = items,
                    page_LastEvaluatedKey =
                      (if compress_last_evaluated_keys (token_codec self) (shard_ids self) res \<noteq> []
                       then Some (compress_last_evaluated_keys (token_codec self) (shard_ids self) res)
                       else None)\<rparr>)) \<and>
           (\<forall>e. sort_by_and_add_priority (sort_key_mapping self) (flatten_items res) idx = Inl e \<longrightarrow>
                query_shards self idx sk attrs = Inl e)"
proof -
  let ?b0 = "\<lparr>results = [], errors = []\<rparr>"
  let ?bf = "fold (\<lambda>(u, kw). threaded_shell (query_items self) False u kw) km ?b0"
  let ?res = "results ?bf"
  have d: "distinct (map fst km)" by (rule kwargs_mapping_of_distinct [OF assms(1)])
  have run: "run (query_items self) km ?b0 = Inr (?res, errors ?bf)"
    by (rule run_all_checked_in [OF assms(4)])
  have res: "map_of ?res sid = Some empty_result"
    using assms(2,3) by (simp add: fold_threaded_shell_results [OF d])
  have errs: "map_of (errors ?bf) sid = Some exc"
    using assms(2,3) by (simp add: fold_threaded_shell_errors [OF d])
  have barrier: "Barrier km = Inr ?b0"
    using assms(5) by (simp add: Barrier_def)
  have call: "query_shards self idx sk attrs = merged_page self idx ?res"
    using assms(1) barrier run by (simp add: query_shards_def)
  from assms(2) have "sid \<in> fst ` set km" by (auto dest: map_of_SomeD simp: rev_image_eqI)
  with kwargs_mapping_of_configured [OF assms(1)] have "sid \<in> set (shard_ids self)" by blast
  with res have cur: "map_of (collect_last_evaluated_keys (shard_ids self) ?res) sid = Some []"
    by (simp add: map_of_collect_last_evaluated_keys last_evaluated_key_of_def empty_result_def)
  have succ: "sort_key_mapping self idx = None \<longrightarrow> (\<exists>p. query_shards self idx sk attrs = Inr p)"
    using call by (simp add: merged_page_def sort_without_sort_key Let_def)
  have page: "(\<forall>name. sort_key_mapping self idx = Some name \<longrightarrow>
               (\<forall>item\<in>set (flatten_items ?res). \<exists>s. item name = Some (VStr s))) \<longrightarrow>
            (\<exists>items. query_shards self idx sk attrs =
               Inr \<lparr>page_Items = items,
                    page_LastEvaluatedKey =
                      (if compress_last_evaluated_keys (token_codec self) (shard_ids self) ?res \<noteq> []
                       then Some (compress_last_evaluated_keys (token_codec self) (shard_ids self) ?res)
                       else None)\<rparr>)"
  proof
    assume "\<forall>name. sort_key_mapping self idx = Some name \<longrightarrow>
               (\<forall>item\<in>set (flatten_items ?res). \<exists>s. item name = Some (VStr s))"
    from sort_by_and_add_priority_returns
           [where m = "sort_key_mapping self" and idx = idx and items = "flatten_items ?res", OF this]
    obtain items where
      "sort_by_and_add_priority (sort_key_mapping self) (flatten_items ?res) idx = Inr items"
      by blast
    from merged_page_returns [OF this] call show "\<exists>items. query_shards self idx sk attrs =
               Inr \<lparr>page_Items = items,
                    page_LastEvaluatedKey =
                      (if compress_last_evaluated_keys (token_codec self) (shard_ids self) ?res \<noteq> []
                       then Some (compress_last_evaluated_keys (token_codec self) (shard_ids self) ?res)
                       else None)\<rparr>"
      by auto
  qed
  have fail: "\<forall>e. sort_by_and_add_priority (sort_key_mapping self) (flatten_items ?res) idx = Inl e \<longrightarrow>
                query_shards self idx sk attrs = Inl e"
    using call by (simp add: merged_page_def)
  from run res errs call cur succ page fail show ?thesis by (intro exI conjI)
qed

theorem failed_shard_recorded_exhausted_witness:
  "kwargs_mapping_of
     \<lparr>shard_ids = [0, 1],
      query_items =
        (\<lambda>kw. if KeyConditionExpression kw = Eq ''s_id'' (VStr ''0'') then Raises (StoreError ''boom'')
              else Returns \<lparr>Items = Some [[''sk'' \<mapsto> VStr ''c#1'']],
                            LastEvaluatedKey = Some [(''sk'', VStr ''c#1'')]\<rparr>),
      token_codec = table_codec [([(0, []), (1, [(''sk'', VStr ''c#1'')])], ''out'')],
      sort_key_mapping = [''idx'' \<mapsto> ''sk'']\<rparr> ''idx'' None
     \<lparr>ExclusiveStartKey = None, Limit = None, extra = []\<rparr> =
     Inr [(0, \<lparr>IndexName = ''idx'', KeyConditionExpression = Eq ''s_id'' (VStr ''0''),
               kw_ExclusiveStartKey = None, kw_Limit = None, kw_extra = []\<rparr>),
          (1, \<lparr>IndexName = ''idx'', KeyConditionExpression = Eq ''s_id'' (VStr ''1''),
               kw_ExclusiveStartKey = None, kw_Limit = None, kw_extra = []\<rparr>)] \<and>
   map_of
     [(0 :: int, \<lparr>IndexName = ''idx'', KeyConditionExpression = Eq ''s_id'' (VStr ''0''),
               kw_ExclusiveStartKey = None, kw_Limit = None, kw_extra = []\<rparr>),
      (1, \<lparr>IndexName = ''idx'', KeyConditionExpression = Eq ''s_id'' (VStr ''1''),
               kw_ExclusiveStartKey = None, kw_Limit = None, kw_extra = []\<rparr>)] 0 =
     Some \<lparr>IndexName = ''idx'', KeyConditionExpression = Eq ''s_id'' (VStr ''0''),
           kw_ExclusiveStartKey = None, kw_Limit = None, kw_extra = []\<rparr> \<and>
   run (\<lambda>kw. if KeyConditionExpression kw = Eq ''s_id'' (VStr ''0'') then Raises (StoreError ''boom'')
             else Returns \<lparr>Items = Some [[''sk'' \<mapsto> VStr ''c#1'']],
                           LastEvaluatedKey = Some [(''sk'', VStr ''c#1'')]\<rparr>)
     [(0, \<lparr>IndexName = ''idx'', KeyConditionExpression = Eq ''s_id'' (VStr ''0''),
            kw_ExclusiveStartKey = None, kw_Limit = None, kw_extra = []\<rparr>),
      (1, \<lparr>IndexName = ''idx'', KeyConditionExpression = Eq ''s_id'' (VStr ''1''),
            kw_ExclusiveStartKey = None, kw_Limit = None, kw_extra = []\<rparr>)]
     \<lparr>results = [], errors = []\<rparr> =
     Inr ([(0, \<lparr>Items = None, LastEvaluatedKey = None\<rparr>),
           (1, \<lparr>Items = Some [[''sk'' \<mapsto> VStr ''c#1'']],
                LastEvaluatedKey = Some [(''sk'', VStr ''c#1'')]\<rparr>)],
          [(0, StoreError ''boom'')]) \<and>
   map_of (collect_last_evaluated_keys [0, 1]
             [(0, \<lparr>Items = None, LastEvaluatedKey = None\<rparr>),
              (1, \<lparr>Items = Some [[''sk'' \<mapsto> VStr ''c#1'']],
                   LastEvaluatedKey = Some [(''sk'', VStr ''c#1'')]\<rparr>)]) 0 = Some [] \<and>
   (\<exists>items.
      query_shards
        \<lparr>shard_ids = [0, 1],
         query_items =
           (\<lambda>kw. if KeyConditionExpression kw = Eq ''s_id'' (VStr ''0'') then Raises (StoreError ''boom'')
                 else Returns \<lparr>Items = Some [[''sk'' \<mapsto> VStr ''c#1'']],
                               LastEvaluatedKey = Some [(''sk'', VStr ''c#1'')]\<rparr>),
         token_codec = table_codec [([(0, []), (1, [(''sk'', VStr ''c#1'')])], ''out'')],
         sort_key_mapping = [''idx'' \<mapsto> ''sk'']\<rparr> ''idx'' None
        \<lparr>ExclusiveStartKey = None, Limit = None, extra = []\<rparr> =
        Inr \<lparr>page_Items = items, page_LastEvaluatedKey = Some ''zout''\<rparr>)"
proof -
  let ?r1 = "\<lparr>Items = Some [[''sk'' \<mapsto> VStr ''c#1'']],
              LastEvaluatedKey = Some [(''sk'', VStr ''c#1'')]\<rparr>"
  let ?q = "\<lambda>kw. if KeyConditionExpression kw = Eq ''s_id'' (VStr ''0'') then Raises (StoreError ''boom'')
              else Returns ?r1"
  let ?c = "table_codec [([(0, []), (1, [(''sk'', VStr ''c#1'')])], ''out'')]"
  let ?self = "\<lparr>shard_ids = [0, 1], query_items = ?q, token_codec = ?c,
                sort_key_mapping = [''idx'' \<mapsto> ''sk'']\<rparr>"
  let ?attrs = "\<lparr>ExclusiveStartKey = None, Limit = None, extra = []\<rparr>"
  let ?kw0 = "\<lparr>IndexName = ''idx'', KeyConditionExpression = Eq ''s_id'' (VStr ''0''),
               kw_ExclusiveStartKey = None, kw_Limit = None, kw_extra = []\<rparr>"
  let ?kw1 = "\<lparr>IndexName = ''idx'', KeyConditionExpression = Eq ''s_id'' (VStr ''1''),
               kw_ExclusiveStartKey = None, kw_Limit = None, kw_extra = []\<rparr>"
  let ?km = "[(0 :: int, ?kw0), (1, ?kw1)]"
  let ?b0 = "\<lparr>results = [], errors = []\<rparr>"
  let ?res = "[(0 :: int, \<lparr>Items = None, LastEvaluatedKey = None\<rparr>), (1, ?r1)]"
  have 1: "kwargs_mapping_of ?self ''idx'' None ?attrs = Inr ?km"
    by (simp add: request_eval)
  have 2: "map_of ?km 0 = Some ?kw0" by simp
  have 3: "query_items ?self ?kw0 = Raises (StoreError ''boom'')" by simp
  have 4: "\<not> list_ex (\<lambda>(u, kw). is_pending (query_items ?self kw)) ?km" by simp
  have 5: "length ?km < 99" by simp
  have runc: "run ?q ?km ?b0 = Inr (?res, [(0, StoreError ''boom'')])"
    by (simp add: barrier_eval)
  have cur: "map_of (collect_last_evaluated_keys [0, 1] ?res) 0 = Some []"
    by (simp add: token_eval)
  have enc: "compress_last_evaluated_keys ?c [0, 1] ?res = ''zout''"
    by (simp add: token_eval)
  have strings: "\<forall>name. [''idx'' \<mapsto> ''sk''] ''idx'' = Some name \<longrightarrow>
                   (\<forall>item\<in>set (flatten_items ?res). \<exists>s. item name = Some (VStr s))"
    by (simp add: flatten_items_def)
  from failed_shard_recorded_exhausted [OF 1 2 3 4 5] obtain res errs where
    run: "run (query_items ?self) ?km ?b0 = Inr (res, errs)" and
    page: "(\<forall>name. sort_key_mapping ?self ''idx'' = Some name \<longrightarrow>
               (\<forall>item\<in>set (flatten_items res). \<exists>s. item name = Some (VStr s))) \<longrightarrow>
            (\<exists>items. query_shards ?self ''idx'' None ?attrs =
               Inr \<lparr>page_Items = items,
                    page_LastEvaluatedKey =
                      (if compress_last_evaluated_keys (token_codec ?self) (shard_ids ?self) res \<noteq> []
                       then Some (compress_last_evaluated_keys (token_codec ?self) (shard_ids ?self) res)
                       else None)\<rparr>)"
    by blast
  from run runc have res: "res = ?res" by simp
  from page strings enc
  have "\<exists>items. query_shards ?self ''idx'' None ?attrs =
               Inr \<lparr>page_Items = items, page_LastEvaluatedKey = Some ''zout''\<rparr>"
    unfolding res by simp
  with 1 2 runc cur show ?thesis by (intro conjI)
qed

lemma add_priority_missing:
  assumes "item \<in> set items" and "item sort_key_name = None"
  shows "add_priority sort_key_name items = Inl KeyError \<or>
         add_priority sort_key_name items = Inl AttributeError"
  using assms
proof (induction items)
  case Nil
  then show ?case by simp
next
  case (Cons x items)
  show ?case
  proof (cases "x sort_key_name")
    case None
    then show ?thesis by simp
  next
    case (Some v)
    with Cons.prems have "item \<in> set items" by auto
    from Cons.IH [OF this Cons.prems(2)] Some show ?thesis
      by (cases v) auto
  qed
qed

lemma add_priority_missing_strings:
  assumes "item \<in> set items" and "item sort_key_name = None"
    and "\<forall>it\<in>set items. \<forall>v. it sort_key_name = Some v \<longrightarrow> (\<exists>s. v = VStr s)"
  shows "add_priority sort_key_name items = Inl KeyError"
  using assms
proof (induction items)
  case Nil
  then show ?case by simp
next
  case (Cons x items)
  show ?case
  proof (cases "x sort_key_name")
    case None
    then show ?thesis by simp
  next
    case (Some v)
    with Cons.prems(3) obtain s where v: "v = VStr s" by auto
    from Some Cons.prems have "item \<in> set items" by auto
    from Cons.IH [OF this Cons.prems(2)] Cons.prems(3) Some v show ?thesis by simp
  qed
qed

text \<open>
  Claim C6 as stated fails. Shard 0 returns an item without the sort-key attribute and
  shard 1 a well-formed item: the call raises \<^verbatim>\<open>KeyError\<close> and returns nothing of shard 1.
\<close>

theorem missing_sort_key_counterexample:
  "query_shards
     \<lparr>shard_ids = [0, 1],
      query_items =
        (\<lambda>kw. if KeyConditionExpression kw = Eq ''s_id'' (VStr ''0'')
              then Returns \<lparr>Items = Some [[''s_id'' \<mapsto> VStr ''0'']], LastEvaluatedKey = None\<rparr>
              else Returns \<lparr>Items = Some [[''s_id'' \<mapsto> VStr ''1'', ''sk'' \<mapsto> VStr ''c#1'']],
                            LastEvaluatedKey = None\<rparr>),
      token_codec = table_codec [], sort_key_mapping = [''idx'' \<mapsto> ''sk'']\<rparr> ''idx'' None
     \<lparr>ExclusiveStartKey = None, Limit = None, extra = []\<rparr> = Inl KeyError"
proof -
  let ?r0 = "\<lparr>Items = Some [[''s_id'' \<mapsto> VStr ''0'']], LastEvaluatedKey = None\<rparr>"
  let ?r1 = "\<lparr>Items = Some [[''s_id'' \<mapsto> VStr ''1'', ''sk'' \<mapsto> VStr ''c#1'']], LastEvaluatedKey = None\<rparr>"
  let ?q = "\<lambda>kw. if KeyConditionExpression kw = Eq ''s_id'' (VStr ''0'') then Returns ?r0 else Returns ?r1"
  let ?self = "\<lparr>shard_ids = [0, 1], query_items = ?q, token_codec = table_codec [],
                sort_key_mapping = [''idx'' \<mapsto> ''sk'']\<rparr>"
  let ?attrs = "\<lparr>ExclusiveStartKey = None, Limit = None, extra = []\<rparr>"
  let ?kw0 = "\<lparr>IndexName = ''idx'', KeyConditionExpression = Eq ''s_id'' (VStr ''0''),
               kw_ExclusiveStartKey = None, kw_Limit = None, kw_extra = []\<rparr>"
  let ?kw1 = "\<lparr>IndexName = ''idx'', KeyConditionExpression = Eq ''s_id'' (VStr ''1''),
               kw_ExclusiveStartKey = None, kw_Limit = None, kw_extra = []\<rparr>"
  have km: "kwargs_mapping_of ?self ''idx'' None ?attrs = Inr [(0, ?kw0), (1, ?kw1)]"
    by (simp add: request_eval)
  have run: "run ?q [(0, ?kw0), (1, ?kw1)] \<lparr>results = [], errors = []\<rparr> =
               Inr ([(0, ?r0), (1, ?r1)], [])"
    by (simp add: barrier_eval)
  have page: "merged_page ?self ''idx'' [(0, ?r0), (1, ?r1)] = Inl KeyError"
    by (simp add: merge_eval)
  show ?thesis
    by (simp add: query_shards_def km Barrier_def run page)
qed

text \<open>
  Claim C6, as amended. When the index has a designated sort key and some merged item
  lacks that attribute, the whole call fails: with \<^verbatim>\<open>KeyError\<close> or \<^verbatim>\<open>AttributeError\<close>, and
  with \<^verbatim>\<open>KeyError\<close> when every item that has the attribute holds a string there.
\<close>

theorem missing_sort_key_fails_call:
  assumes "kwargs_mapping_of self idx sk attrs = Inr km" and "Barrier km = Inr b"
    and "run (query_items self) km b = Inr (res, errs)"
    and "sort_key_mapping self idx = Some sort_key_name" and "sort_key_name \<noteq> []"
    and "item \<in> set (flatten_items res)" and "item sort_key_name = None"
  shows "(query_shards self idx sk attrs = Inl KeyError \<or>
          query_shards self idx sk attrs = Inl AttributeError) \<and>
         ((\<forall>it\<in>set (flatten_items res). \<forall>v. it sort_key_name = Some v \<longrightarrow> (\<exists>s. v = VStr s)) \<longrightarrow>
          query_shards self idx sk attrs = Inl KeyError)"
proof -
  let ?items = "flatten_items res"
  from assms(6) have ne: "?items \<noteq> []" by auto
  have call: "query_shards self idx sk attrs =
                (case add_priority sort_key_name ?items of
                   Inl e \<Rightarrow> Inl e
                 | Inr items' \<Rightarrow> merged_page self idx res)"
    using assms(1-5) ne
    by (simp add: query_shards_def merged_page_def sort_by_and_add_priority_def split: sum.splits)
  from add_priority_missing [OF assms(6,7)] call
  have first: "query_shards self idx sk attrs = Inl KeyError \<or>
               query_shards self idx sk attrs = Inl AttributeError"
    by auto
  have second: "query_shards self idx sk attrs = Inl KeyError"
    if "\<forall>it\<in>set ?items. \<forall>v. it sort_key_name = Some v \<longrightarrow> (\<exists>s. v = VStr s)"
    using add_priority_missing_strings [OF assms(6,7) that] call by simp
  from first second show ?thesis by blast
qed

theorem missing_sort_key_fails_call_witness:
  "kwargs_mapping_of
     \<lparr>shard_ids = [0, 1],
      query_items =
        (\<lambda>kw. if KeyConditionExpression kw = Eq ''s_id'' (VStr ''0'')
              then Returns \<lparr>Items = Some [[''s_id'' \<mapsto> VStr ''0'']], LastEvaluatedKey = None\<rparr>
              else Returns \<lparr>Items = Some [[''s_id'' \<mapsto> VStr ''1'', ''sk'' \<mapsto> VStr ''c#1'']],
                            LastEvaluatedKey = None\<rparr>),
      token_codec = table_codec [], sort_key_mapping = [''idx'' \<mapsto> ''sk'']\<rparr> ''idx'' None
     \<lparr>ExclusiveStartKey = None, Limit = None, extra = []\<rparr> =
     Inr [(0, \<lparr>IndexName = ''idx'', KeyConditionExpression = Eq ''s_id'' (VStr ''0''),
               kw_ExclusiveStartKey = None, kw_Limit = None, kw_extra = []\<rparr>),
          (1, \<lparr>IndexName = ''idx'', KeyConditionExpression = Eq ''s_id'' (VStr ''1''),
               kw_ExclusiveStartKey = None, kw_Limit = None, kw_extra = []\<rparr>)] \<and>
   run (\<lambda>kw. if KeyConditionExpression kw = Eq ''s_id'' (VStr ''0'')
              then Returns \<lparr>Items = Some [[''s_id'' \<mapsto> VStr ''0'']], LastEvaluatedKey = None\<rparr>
              else Returns \<lparr>Items = Some [[''s_id'' \<mapsto> VStr ''1'', ''sk'' \<mapsto> VStr ''c#1'']],
                            LastEvaluatedKey = None\<rparr>)
     [(0, \<lparr>IndexName = ''idx'', KeyConditionExpression = Eq ''s_id'' (VStr ''0''),
               kw_ExclusiveStartKey = None, kw_Limit = None, kw_extra = []\<rparr>),
      (1, \<lparr>IndexName = ''idx'', KeyConditionExpression = Eq ''s_id'' (VStr ''1''),
               kw_ExclusiveStartKey = None, kw_Limit = None, kw_extra = []\<rparr>)]
     \<lparr>results = [], errors = []\<rparr> =
     Inr ([(0, \<lparr>Items = Some [[''s_id'' \<mapsto> VStr ''0'']], LastEvaluatedKey = None\<rparr>),
           (1, \<lparr>Items = Some [[''s_id'' \<mapsto> VStr ''1'', ''sk'' \<mapsto> VStr ''c#1'']],
                LastEvaluatedKey = None\<rparr>)], []) \<and>
   [''s_id'' \<mapsto> VStr ''0''] \<in>
     set (flatten_items
            [(0, \<lparr>Items = Some [[''s_id'' \<mapsto> VStr ''0'']], LastEvaluatedKey = None\<rparr>),
             (1, \<lparr>Items = Some [[''s_id'' \<mapsto> VStr ''1'', ''sk'' \<mapsto> VStr ''c#1'']],
                  LastEvaluatedKey = None\<rparr>)]) \<and>
   [''s_id'' \<mapsto> VStr ''0''] ''sk'' = None \<and>
   (query_shards
      \<lparr>shard_ids = [0, 1],
       query_items =
         (\<lambda>kw. if KeyConditionExpression kw = Eq ''s_id'' (VStr ''0'')
               then Returns \<lparr>Items = Some [[''s_id'' \<mapsto> VStr ''0'']], LastEvaluatedKey = None\<rparr>
               else Returns \<lparr>Items = Some [[''s_id'' \<mapsto> VStr ''1'', ''sk'' \<mapsto> VStr ''c#1'']],
                             LastEvaluatedKey = None\<rparr>),
       token_codec = table_codec [], sort_key_mapping = [''idx'' \<mapsto> ''sk'']\<rparr> ''idx'' None
      \<lparr>ExclusiveStartKey = None, Limit = None, extra = []\<rparr> = Inl KeyError \<or>
    query_shards
      \<lparr>shard_ids = [0, 1],
       query_items =
         (\<lambda>kw. if KeyConditionExpression kw = Eq ''s_id'' (VStr ''0'')
               then Returns \<lparr>Items = Some [[''s_id'' \<mapsto> VStr ''0'']], LastEvaluatedKey = None\<rparr>
               else Returns \<lparr>Items = Some [[''s_id'' \<mapsto> VStr ''1'', ''sk'' \<mapsto> VStr ''c#1'']],
                             LastEvaluatedKey = None\<rparr>),
       token_codec = table_codec [], sort_key_mapping = [''idx'' \<mapsto> ''sk'']\<rparr> ''idx'' None
      \<lparr>ExclusiveStartKey = None, Limit = None, extra = []\<rparr> = Inl AttributeError)"
proof -
  let ?i0 = "[''s_id'' \<mapsto> VStr ''0'']"
  let ?r0 = "\<lparr>Items = Some [?i0], LastEvaluatedKey = None\<rparr>"
  let ?r1 = "\<lparr>Items = Some [[''s_id'' \<mapsto> VStr ''1'', ''sk'' \<mapsto> VStr ''c#1'']], LastEvaluatedKey = None\<rparr>"
  let ?q = "\<lambda>kw. if KeyConditionExpression kw = Eq ''s_id'' (VStr ''0'') then Returns ?r0 else Returns ?r1"
  let ?self = "\<lparr>shard_ids = [0, 1], query_items = ?q, token_codec = table_codec [],
                sort_key_mapping = [''idx'' \<mapsto> ''sk'']\<rparr>"
  let ?attrs = "\<lparr>ExclusiveStartKey = None, Limit = None, extra = []\<rparr>"
  let ?kw0 = "\<lparr>IndexName = ''idx'', KeyConditionExpression = Eq ''s_id'' (VStr ''0''),
               kw_ExclusiveStartKey = None, kw_Limit = None, kw_extra = []\<rparr>"
  let ?kw1 = "\<lparr>IndexName = ''idx'', KeyConditionExpression = Eq ''s_id'' (VStr ''1''),
               kw_ExclusiveStartKey = None, kw_Limit = None, kw_extra = []\<rparr>"
  let ?km = "[(0 :: int, ?kw0), (1, ?kw1)]"
  let ?res = "[(0 :: int, ?r0), (1, ?r1)]"
  let ?b = "\<lparr>results = [], errors = []\<rparr>"
  have 1: "kwargs_mapping_of ?self ''idx'' None ?attrs = Inr ?km"
    by (simp add: request_eval)
  have 2: "Barrier ?km = Inr ?b" by (simp add: Barrier_def)
  have run: "run ?q ?km ?b = Inr (?res, [])"
    by (simp add: barrier_eval)
  then have 3: "run (query_items ?self) ?km ?b = Inr (?res, [])" by simp
  have 4: "sort_key_mapping ?self ''idx'' = Some ''sk''" by simp
  have 5: "''sk'' \<noteq> []" by simp
  have 6: "?i0 \<in> set (flatten_items ?res)" by (simp add: flatten_items_def)
  have 7: "?i0 ''sk'' = None" by simp
  from missing_sort_key_fails_call [OF 1 2 3 4 5 6 7]
  have "query_shards ?self ''idx'' None ?attrs = Inl KeyError \<or>
        query_shards ?self ''idx'' None ?attrs = Inl AttributeError"
    by (rule conjunct1)
  with 1 run 6 7 show ?thesis by (intro conjI)
qed

lemma add_priority_items:
  assumes "add_priority sort_key_name items = Inr items'" and "item' \<in> set items'"
  shows "\<exists>item\<in>set items. \<forall>k. k \<noteq> ''priority'' \<longrightarrow> item' k = item k"
  using assms
proof (induction items arbitrary: items')
  case Nil
  then show ?case by simp
next
  case (Cons x items)
  from Cons.prems(1) obtain s rest where
    x: "x sort_key_name = Some (VStr s)" and
    rest: "add_priority sort_key_name items = Inr rest" and
    items': "items' = x(''priority'' \<mapsto> VStr (last (split_chr CHR ''#'' s))) # rest"
    by (auto split: option.splits pyval.splits sum.splits)
  from Cons.prems(2) items' consider
    "item' = x(''priority'' \<mapsto> VStr (last (split_chr CHR ''#'' s)))" | "item' \<in> set rest"
    by auto
  then show ?case
  proof cases
    case 1
    then show ?thesis by auto
  next
    case 2
    from Cons.IH [OF rest 2] show ?thesis by auto
  qed
qed

lemma sort_by_and_add_priority_items:
  assumes "sort_by_and_add_priority m items idx = Inr items'" and "item' \<in> set items'"
  shows "\<exists>item\<in>set items. \<forall>k. k \<noteq> ''priority'' \<longrightarrow> item' k = item k"
proof (cases "m idx")
  case None
  with assms show ?thesis by (auto simp: sort_by_and_add_priority_def)
next
  case (Some sort_key_name)
  show ?thesis
  proof (cases "items \<noteq> [] \<and> sort_key_name \<noteq> []")
    case True
    with Some assms(1) obtain added where
      added: "add_priority sort_key_name items = Inr added" and
      items': "items' = sort_key priority_of added"
      by (auto simp: sort_by_and_add_priority_def split: sum.splits)
    from assms(2) items' have "item' \<in> set added" by simp
    from add_priority_items [OF added this] show ?thesis .
  next
    case False
    with Some assms show ?thesis by (auto simp: sort_by_and_add_priority_def)
  qed
qed

lemma flatten_items_member:
  assumes "item \<in> set (flatten_items res)"
  shows "\<exists>p\<in>set res. \<exists>items. Items (snd p) = Some items \<and> item \<in> set items"
  using assms
proof (induction res)
  case Nil
  then show ?case by (simp add: flatten_items_def)
next
  case (Cons q res)
  obtain u v where q: "q = (u, v)" by (cases q)
  from Cons.prems q consider
    "item \<in> set (case Items v of None \<Rightarrow> [] | Some items \<Rightarrow> items)"
    | "item \<in> set (flatten_items res)"
    by (auto simp: flatten_items_def)
  then show ?case
  proof cases
    case 1
    then obtain items where "Items v = Some items" and "item \<in> set items"
      by (cases "Items v") auto
    with q show ?thesis by auto
  next
    case 2
    from Cons.IH [OF this] show ?thesis by auto
  qed
qed

text \<open>
  Claim C3 as stated fails. The store returns an item carrying the index key \<^verbatim>\<open>s_id\<close>; the
  page holds the item with \<^verbatim>\<open>s_id\<close> still present, where
  \<^verbatim>\<open>drop_index_keys_from_entity\<close> would have removed it.
\<close>

theorem svelte_output_counterexample:
  "query_shards
     \<lparr>shard_ids = [0],
      query_items =
        (\<lambda>kw. Returns \<lparr>Items = Some [[''s_id'' \<mapsto> VStr ''0'', ''articleType'' \<mapsto> VStr ''shoe'']],
                           LastEvaluatedKey = None\<rparr>),
      token_codec = table_codec [], sort_key_mapping = Map.empty\<rparr> ''idx'' None
     \<lparr>ExclusiveStartKey = None, Limit = None, extra = []\<rparr> =
     Inr \<lparr>page_Items = [[''s_id'' \<mapsto> VStr ''0'', ''articleType'' \<mapsto> VStr ''shoe'']],
          page_LastEvaluatedKey = None\<rparr> \<and>
   [''s_id'' \<mapsto> VStr ''0'', ''articleType'' \<mapsto> VStr ''shoe''] ''s_id'' = Some (VStr ''0'') \<and>
   fst (drop_index_keys_from_entity [(''s_id'', ShardIdTemplate [0, 1, 2])]
          \<lparr>cells = (\<lambda>a. Map.empty)(0 := [''s_id'' \<mapsto> VStr ''0'', ''articleType'' \<mapsto> VStr ''shoe'']),
           next_free = 1\<rparr> 0) = 1 \<and>
   cells (snd (drop_index_keys_from_entity [(''s_id'', ShardIdTemplate [0, 1, 2])]
                 \<lparr>cells = (\<lambda>a. Map.empty)(0 := [''s_id'' \<mapsto> VStr ''0'', ''articleType'' \<mapsto> VStr ''shoe'']),
                  next_free = 1\<rparr> 0)) 1 ''s_id'' = None"
proof -
  let ?item = "[''s_id'' \<mapsto> VStr ''0'', ''articleType'' \<mapsto> VStr ''shoe'']"
  let ?r = "\<lparr>Items = Some [?item], LastEvaluatedKey = None\<rparr>"
  let ?self = "\<lparr>shard_ids = [0], query_items = (\<lambda>kw. Returns ?r), token_codec = table_codec [],
                sort_key_mapping = Map.empty\<rparr>"
  let ?attrs = "\<lparr>ExclusiveStartKey = None, Limit = None, extra = []\<rparr>"
  let ?kw0 = "\<lparr>IndexName = ''idx'', KeyConditionExpression = Eq ''s_id'' (VStr ''0''),
               kw_ExclusiveStartKey = None, kw_Limit = None, kw_extra = []\<rparr>"
  let ?h = "\<lparr>cells = (\<lambda>a. Map.empty)(0 := ?item), next_free = 1\<rparr>"
  have km: "kwargs_mapping_of ?self ''idx'' None ?attrs = Inr [(0, ?kw0)]"
    by (simp add: request_eval)
  have run: "run (\<lambda>kw. Returns ?r) [(0, ?kw0)] \<lparr>results = [], errors = []\<rparr> = Inr ([(0, ?r)], [])"
    by (simp add: barrier_eval)
  have page: "merged_page ?self ''idx'' [(0, ?r)] = Inr \<lparr>page_Items = [?item], page_LastEvaluatedKey = None\<rparr>"
    by (simp add: merge_eval token_eval)
  have call: "query_shards ?self ''idx'' None ?attrs =
                Inr \<lparr>page_Items = [?item], page_LastEvaluatedKey = None\<rparr>"
    by (simp add: query_shards_def km Barrier_def run page)
  have kept: "?item ''s_id'' = Some (VStr ''0'')" by simp
  have addr: "fst (drop_index_keys_from_entity [(''s_id'', ShardIdTemplate [0, 1, 2])] ?h 0) = 1"
    by (simp add: drop_index_keys_from_entity_def deepcopy_def)
  have dropped: "cells (snd (drop_index_keys_from_entity [(''s_id'', ShardIdTemplate [0, 1, 2])] ?h 0)) 1 ''s_id'' = None"
    by (simp add: drop_index_keys_from_entity_def deepcopy_def pop_key_def)
  from call kept addr dropped show ?thesis by (intro conjI)
qed

text \<open>
  Claim C3, as amended. Every item of the page that \<^verbatim>\<open>query_shards\<close> returns is an item
  that the store callable returned, equal to it on every attribute except \<^verbatim>\<open>priority\<close>:
  index keys are not removed.
\<close>

theorem query_shards_returns_store_items:
  assumes "query_shards self idx sk attrs = Inr p" and "item' \<in> set (page_Items p)"
  shows "\<exists>kw r items item.
           query_items self kw = Returns r \<and> Items r = Some items \<and> item \<in> set items \<and>
           (\<forall>k. k \<noteq> ''priority'' \<longrightarrow> item' k = item k)"
proof -
  from assms(1) obtain km b res errs where
    barrier: "Barrier km = Inr b" and
    run: "run (query_items self) km b = Inr (res, errs)" and
    page: "merged_page self idx res = Inr p"
    by (auto simp: query_shards_def split: sum.splits)
  from barrier have b: "b = \<lparr>results = [], errors = []\<rparr>"
    by (auto simp: Barrier_def Let_def split: if_splits)
  from page have sorted: "sort_by_and_add_priority (sort_key_mapping self) (flatten_items res) idx =
                            Inr (page_Items p)"
    by (auto simp: merged_page_def Let_def split: sum.splits)
  from sort_by_and_add_priority_items [OF sorted assms(2)] obtain item where
    item: "item \<in> set (flatten_items res)" and same: "\<forall>k. k \<noteq> ''priority'' \<longrightarrow> item' k = item k"
    by blast
  from flatten_items_member [OF item] obtain q items where
    q: "q \<in> set res" and items: "Items (snd q) = Some items" and mem: "item \<in> set items"
    by blast
  from run have pend: "\<not> list_ex (\<lambda>(u, kw). is_pending (query_items self kw)) km"
    using run_returns_iff [of "query_items self" km b] by blast
  from run run_all_checked_in [OF pend, of b]
  have "res = results (fold (\<lambda>(u, kw). threaded_shell (query_items self) False u kw) km b)"
    by simp
  with q have "q \<in> set (results (fold (\<lambda>(u, kw). threaded_shell (query_items self) False u kw) km b))"
    by simp
  from fold_threaded_shell_origin [OF this] b items
  obtain kw where "query_items self kw = Returns (snd q)"
    by (auto simp: empty_result_def)
  with items mem same show ?thesis by blast
qed

theorem query_shards_returns_store_items_witness:
  "query_shards
     \<lparr>shard_ids = [0],
      query_items =
        (\<lambda>kw. Returns \<lparr>Items = Some [[''s_id'' \<mapsto> VStr ''0'', ''sk'' \<mapsto> VStr ''c#7'']],
                           LastEvaluatedKey = None\<rparr>),
      token_codec = table_codec [], sort_key_mapping = [''idx'' \<mapsto> ''sk'']\<rparr> ''idx'' None
     \<lparr>ExclusiveStartKey = None, Limit = None, extra = []\<rparr> =
     Inr \<lparr>page_Items = [[''s_id'' \<mapsto> VStr ''0'', ''sk'' \<mapsto> VStr ''c#7'', ''priority'' \<mapsto> VStr ''7'']],
          page_LastEvaluatedKey = None\<rparr> \<and>
   [''s_id'' \<mapsto> VStr ''0'', ''sk'' \<mapsto> VStr ''c#7'', ''priority'' \<mapsto> VStr ''7''] \<in>
     set (page_Items
            \<lparr>page_Items = [[''s_id'' \<mapsto> VStr ''0'', ''sk'' \<mapsto> VStr ''c#7'', ''priority'' \<mapsto> VStr ''7'']],
             page_LastEvaluatedKey = None\<rparr>) \<and>
   (\<exists>kw r items item.
      (\<lambda>kw. Returns \<lparr>Items = Some [[''s_id'' \<mapsto> VStr ''0'', ''sk'' \<mapsto> VStr ''c#7'']],
                       LastEvaluatedKey = None\<rparr>) kw = Returns r \<and>
      Items r = Some items \<and> item \<in> set items \<and>
      (\<forall>k. k \<noteq> ''priority'' \<longrightarrow>
         [''s_id'' \<mapsto> VStr ''0'', ''sk'' \<mapsto> VStr ''c#7'', ''priority'' \<mapsto> VStr ''7''] k = item k))"
proof -
  let ?item = "[''s_id'' \<mapsto> VStr ''0'', ''sk'' \<mapsto> VStr ''c#7'']"
  let ?item' = "[''s_id'' \<mapsto> VStr ''0'', ''sk'' \<mapsto> VStr ''c#7'', ''priority'' \<mapsto> VStr ''7'']"
  let ?r = "\<lparr>Items = Some [?item], LastEvaluatedKey = None\<rparr>"
  let ?self = "\<lparr>shard_ids = [0], query_items = (\<lambda>kw. Returns ?r), token_codec = table_codec [],
                sort_key_mapping = [''idx'' \<mapsto> ''sk'']\<rparr>"
  let ?attrs = "\<lparr>ExclusiveStartKey = None, Limit = None, extra = []\<rparr>"
  let ?kw0 = "\<lparr>IndexName = ''idx'', KeyConditionExpression = Eq ''s_id'' (VStr ''0''),
               kw_ExclusiveStartKey = None, kw_Limit = None, kw_extra = []\<rparr>"
  let ?p = "\<lparr>page_Items = [?item'], page_LastEvaluatedKey = None\<rparr>"
  have km: "kwargs_mapping_of ?self ''idx'' None ?attrs = Inr [(0, ?kw0)]"
    by (simp add: request_eval)
  have run: "run (\<lambda>kw. Returns ?r) [(0, ?kw0)] \<lparr>results = [], errors = []\<rparr> = Inr ([(0, ?r)], [])"
    by (simp add: barrier_eval)
  have page: "merged_page ?self ''idx'' [(0, ?r)] = Inr ?p"
    by (simp add: merge_eval token_eval)
  have 1: "query_shards ?self ''idx'' None ?attrs = Inr ?p"
    by (simp add: query_shards_def km Barrier_def run page)
  have 2: "?item' \<in> set (page_Items ?p)" by simp
  from query_shards_returns_store_items [OF 1 2]
  have "\<exists>kw r items item.
      (\<lambda>kw. Returns ?r) kw = Returns r \<and> Items r = Some items \<and> item \<in> set items \<and>
      (\<forall>k. k \<noteq> ''priority'' \<longrightarrow> ?item' k = item k)"
    by simp
  with 1 2 show ?thesis by (intro conjI)
qed

end
